theory Spec2Isabelle
  imports Main
begin

section \<open>extract\_candidates.py: the spreadsheet extraction, embedded in HOL\<close>

text \<open>
  The script reads an Office Open XML spreadsheet package (a zip archive of XML documents),
  follows the relationship files workbook \<open>\<rightarrow>\<close> sheet \<open>\<rightarrow>\<close> drawing \<open>\<rightarrow>\<close> image, and emits
  one position per sheet with its candidates and their headshots.

  Conventions of the embedding:
  \<^item> A Python \<open>str\<close> is a sequence of code points. The embedding uses \<open>string\<close>, so every
    character is a code point below 256; the character classes below (\<open>isspace\<close>,
    \<open>isalpha\<close>, \<open>lower\<close>) are Python's, restricted to that range.
  \<^item> Every exception the script can raise is a value of \<open>error\<close>; a function that can raise
    returns \<open>error + 'a\<close>, with \<open>Inl\<close> for the exception.
  \<^item> \<open>ET.fromstring\<close> is library code: an archive member carries its bytes together with
    the element tree the parser builds from them (\<open>None\<close> when the bytes are not
    well-formed XML).
  \<^item> Dictionaries are maps \<open>'k \<rightharpoonup> 'v\<close>; Python's \<open>int\<close> is \<open>int\<close>.
\<close>

subsection \<open>Exceptions\<close>

datatype error =
    KeyError          \<comment> \<open>missing archive member, missing attribute in \<open>attrib[...]\<close>\<close>
  | IndexError        \<comment> \<open>list index out of range\<close>
  | ValueError        \<comment> \<open>\<open>int(...)\<close> of a string that is not an integer literal\<close>
  | TypeError         \<comment> \<open>\<open>int(None)\<close>, iterating \<open>None\<close>\<close>
  | AttributeError    \<comment> \<open>\<open>None.text\<close>\<close>
  | ParseError        \<comment> \<open>\<open>ET.fromstring\<close> of malformed XML\<close>

subsection \<open>Python string operations\<close>

definition isspace :: "char \<Rightarrow> bool" where
  "isspace c = (of_char c \<in> set [9, 10, 11, 12, 13, 28, 29, 30, 31, 32, 133, 160 :: nat])"

definition isalpha :: "char \<Rightarrow> bool" where
  "isalpha c =
     (let n = (of_char c :: nat)
      in (65 \<le> n \<and> n \<le> 90) \<or> (97 \<le> n \<and> n \<le> 122) \<or> n = 170 \<or> n = 181 \<or> n = 186
         \<or> (192 \<le> n \<and> n \<le> 214) \<or> (216 \<le> n \<and> n \<le> 246) \<or> (248 \<le> n \<and> n \<le> 255))"

definition lower_char :: "char \<Rightarrow> char" where
  "lower_char c =
     (let n = (of_char c :: nat)
      in if (65 \<le> n \<and> n \<le> 90) \<or> (192 \<le> n \<and> n \<le> 214) \<or> (216 \<le> n \<and> n \<le> 222)
         then char_of (n + 32) else c)"

definition lower :: "string \<Rightarrow> string" where
  "lower s = map lower_char s"

text \<open>\<open>s.strip()\<close> and \<open>s.strip(chars)\<close>: drop the characters of the class at both ends.\<close>

definition strip_with :: "(char \<Rightarrow> bool) \<Rightarrow> string \<Rightarrow> string" where
  "strip_with p s = rev (dropWhile p (rev (dropWhile p s)))"

definition strip :: "string \<Rightarrow> string" where
  "strip s = strip_with isspace s"

text \<open>\<open>s.replace("\t", " ")\<close>: both strings are one character long.\<close>

definition replace_tab :: "string \<Rightarrow> string" where
  "replace_tab s = map (\<lambda>c. if c = CHR 0x09 then CHR '' '' else c) s"

definition endswith :: "string \<Rightarrow> string \<Rightarrow> bool" where
  "endswith s suf = (length suf \<le> length s \<and> drop (length s - length suf) s = suf)"

text \<open>\<open>s.split(sep)\<close> for a one-character separator: never the empty list.\<close>

fun split :: "char \<Rightarrow> string \<Rightarrow> string list" where
  "split sep [] = [[]]"
| "split sep (c # cs) =
     (if c = sep then [] # split sep cs
      else (case split sep cs of [] \<Rightarrow> [[c]] | w # ws \<Rightarrow> (c # w) # ws))"

text \<open>\<open>sep.join(xs)\<close>.\<close>

fun join_with :: "string \<Rightarrow> string list \<Rightarrow> string" where
  "join_with sep [] = []"
| "join_with sep [x] = x"
| "join_with sep (x # y # ys) = x @ sep @ join_with sep (y # ys)"

text \<open>\<open>x or ""\<close> for an optional string: \<open>None\<close> and the empty string both give \<open>""\<close>.\<close>

definition or_empty :: "string option \<Rightarrow> string" where
  "or_empty x = (case x of None \<Rightarrow> [] | Some s \<Rightarrow> s)"

text \<open>Truth value of an optional string: \<open>None\<close> and \<open>""\<close> are false.\<close>

definition truthy :: "string option \<Rightarrow> bool" where
  "truthy x = (case x of None \<Rightarrow> False | Some s \<Rightarrow> s \<noteq> [])"

subsubsection \<open>\<open>int(s)\<close> and \<open>str(n)\<close>\<close>

text \<open>
  \<open>int(s)\<close> on a string: surrounding whitespace is dropped, an optional sign follows, then
  decimal digits, where single underscores may separate digits. Anything else raises
  \<open>ValueError\<close>. The whitespace accepted is ASCII whitespace (tab to carriage return, and
  space) and, among the characters from 127 on, those of \<open>isspace\<close>; the separators
  28 to 31 are not accepted. (CPython from 3.11 on also refuses literals of more than 4300
  digits by default; that limit is a run-time setting and is not modelled.)
\<close>

definition int_space :: "char \<Rightarrow> bool" where
  "int_space c = (let n = (of_char c :: nat) in (9 \<le> n \<and> n \<le> 13) \<or> n = 32 \<or> n = 133 \<or> n = 160)"

definition isdigit :: "char \<Rightarrow> bool" where
  "isdigit c = (let n = (of_char c :: nat) in 48 \<le> n \<and> n \<le> 57)"

definition digit_val :: "char \<Rightarrow> int" where
  "digit_val c = int (of_char c) - 48"

text \<open>
  The digit loop: \<open>prev_us\<close> says that the previous character was an underscore, \<open>acc\<close> is
  the value read so far. The loop is entered after the first digit.
\<close>

fun digits_loop :: "bool \<Rightarrow> int \<Rightarrow> string \<Rightarrow> int option" where
  "digits_loop prev_us acc [] = (if prev_us then None else Some acc)"
| "digits_loop prev_us acc (c # cs) =
     (if c = CHR ''_'' then (if prev_us then None else digits_loop True acc cs)
      else if isdigit c then digits_loop False (10 * acc + digit_val c) cs
      else None)"

definition py_int :: "string \<Rightarrow> error + int" where
  "py_int s =
     (let t = strip_with int_space s;
          (sgn, body) = (case t of
                           c # cs \<Rightarrow> if c = CHR ''-'' then (- 1, cs)
                                     else if c = CHR ''+'' then (1, cs) else (1, t)
                         | [] \<Rightarrow> (1 :: int, t))
      in case body of
           [] \<Rightarrow> Inl ValueError
         | c # cs \<Rightarrow>
             if isdigit c
             then (case digits_loop False (digit_val c) cs of
                     None \<Rightarrow> Inl ValueError
                   | Some n \<Rightarrow> Inr (sgn * n))
             else Inl ValueError)"

fun str_nat :: "nat \<Rightarrow> string" where
  "str_nat n = (if n < 10 then [char_of (48 + n)] else str_nat (n div 10) @ [char_of (48 + n mod 10)])"

definition str_int :: "int \<Rightarrow> string" where
  "str_int i = (if i < 0 then CHR ''-'' # str_nat (nat (- i)) else str_nat (nat i))"

subsubsection \<open>\<open>posixpath\<close> and \<open>pathlib\<close>\<close>

text \<open>\<open>posixpath.join(a, b)\<close>: an absolute \<open>b\<close> replaces what came before.\<close>

definition path_join :: "string \<Rightarrow> string \<Rightarrow> string" where
  "path_join a b =
     (if b \<noteq> [] \<and> hd b = CHR ''/'' then b
      else if a = [] \<or> last a = CHR ''/'' then a @ b
      else a @ ''/'' @ b)"

text \<open>\<open>posixpath.dirname(p)\<close>: everything up to the last slash, without trailing slashes
  unless it consists of slashes only.\<close>

definition dirname :: "string \<Rightarrow> string" where
  "dirname p =
     (let head = rev (dropWhile (\<lambda>c. c \<noteq> CHR ''/'') (rev p))
      in if head \<noteq> [] \<and> \<not> list_all (\<lambda>c. c = CHR ''/'') head
         then rev (dropWhile (\<lambda>c. c = CHR ''/'') (rev head))
         else head)"

text \<open>The component loop of \<open>posixpath.normpath\<close>; \<open>new_comps\<close> is kept in order.\<close>

fun norm_comps :: "bool \<Rightarrow> string list \<Rightarrow> string list \<Rightarrow> string list" where
  "norm_comps initial new_comps [] = new_comps"
| "norm_comps initial new_comps (seg # comps) =
     (if seg = [] \<or> seg = ''.'' then norm_comps initial new_comps comps
      else if seg \<noteq> ''..'' \<or> (\<not> initial \<and> new_comps = [])
              \<or> (new_comps \<noteq> [] \<and> last new_comps = ''..'')
           then norm_comps initial (new_comps @ [seg]) comps
      else if new_comps \<noteq> [] then norm_comps initial (butlast new_comps) comps
      else norm_comps initial new_comps comps)"

definition normpath :: "string \<Rightarrow> string" where
  "normpath path =
     (if path = [] then ''.''
      else
        let initial_slashes =
              (if take 1 path = ''/''
               then (if take 2 path = ''//'' \<and> take 3 path \<noteq> ''///'' then 2 else 1)
               else (0 :: nat));
            comps = norm_comps (initial_slashes \<noteq> 0) [] (split CHR ''/'' path);
            p = replicate initial_slashes CHR ''/'' @ join_with ''/'' comps
        in if p = [] then ''.'' else p)"

text \<open>\<open>Path(p).name\<close>: the last component that is neither empty nor a single dot.\<close>

definition path_name :: "string \<Rightarrow> string" where
  "path_name p =
     (let parts = filter (\<lambda>x. x \<noteq> [] \<and> x \<noteq> ''.'') (split CHR ''/'' p)
      in if parts = [] then [] else last parts)"

text \<open>\<open>Path(p).suffix\<close>: from the last dot of the name on, when that dot is neither the
  first nor the last character of the name.\<close>

definition path_suffix :: "string \<Rightarrow> string" where
  "path_suffix p =
     (let name = path_name p;
          after = rev (takeWhile (\<lambda>c. c \<noteq> CHR ''.'') (rev name))
      in if CHR ''.'' \<in> set name \<and> after \<noteq> [] \<and> length after + 1 < length name
         then CHR ''.'' # after else [])"

text \<open>
  \<open>slugify\<close>: \<open>re.sub(r"[^a-z0-9]+", "-", text)\<close> replaces every maximal run of characters
  outside \<open>a-z0-9\<close> by one dash; \<open>re.sub(r"-+", "-", ...)\<close> does the same for runs of dashes.
\<close>

definition slug_char :: "char \<Rightarrow> bool" where
  "slug_char c =
     (let n = (of_char c :: nat) in (97 \<le> n \<and> n \<le> 122) \<or> (48 \<le> n \<and> n \<le> 57))"

function sub_runs :: "(char \<Rightarrow> bool) \<Rightarrow> string \<Rightarrow> string" where
  "sub_runs p [] = []"
| "sub_runs p (c # cs) =
     (if p c then CHR ''-'' # sub_runs p (dropWhile p cs) else c # sub_runs p cs)"
  by pat_completeness auto
termination
  by (relation "measure (\<lambda>(p, s). length s)") (auto simp: length_dropWhile_le less_Suc_eq_le)

definition slugify :: "string \<Rightarrow> string" where
  "slugify txt =
     (let t1 = lower txt;
          t2 = sub_runs (\<lambda>c. \<not> slug_char c) t1
      in strip_with (\<lambda>c. c = CHR ''-'') (sub_runs (\<lambda>c. c = CHR ''-'') t2))"

subsection \<open>Element trees and the archive\<close>

text \<open>
  An \<open>xml.etree\<close> element: its tag in the \<open>{namespace}local\<close> form, its attribute
  dictionary, the text before its first child (\<open>None\<close> when there is none) and its child
  elements in document order. The parser drops comments and processing instructions.
\<close>

datatype element =
  Element (tag: string) (attrib: "string \<rightharpoonup> string") (elem_text: "string option")
          (children: "element list")

definition qname :: "string \<Rightarrow> string \<Rightarrow> string" where
  "qname ns l = ''{'' @ ns @ ''}'' @ l"

text \<open>The prefixes of \<open>NS\<close>.\<close>

definition ns_main :: string where
  "ns_main = ''http://schemas.openxmlformats.org/spreadsheetml/2006/main''"

definition ns_rel :: string where
  "ns_rel = ''http://schemas.openxmlformats.org/package/2006/relationships''"

definition ns_xdr :: string where
  "ns_xdr = ''http://schemas.openxmlformats.org/drawingml/2006/spreadsheetDrawing''"

definition ns_a :: string where
  "ns_a = ''http://schemas.openxmlformats.org/drawingml/2006/main''"

definition ns_r :: string where
  "ns_r = ''http://schemas.openxmlformats.org/officeDocument/2006/relationships''"

text \<open>\<open>e.find("p:x", NS)\<close> and \<open>e.findall("p:x", NS)\<close>: the children with that tag.\<close>

definition findall :: "string \<Rightarrow> element \<Rightarrow> element list" where
  "findall t e = filter (\<lambda>c. tag c = t) (children e)"

definition find_child :: "string \<Rightarrow> element \<Rightarrow> element option" where
  "find_child t e = List.find (\<lambda>c. tag c = t) (children e)"

text \<open>The descendants of an element in document order, the element itself excluded.\<close>

fun descendants :: "element \<Rightarrow> element list" where
  "descendants (Element t a x cs) = concat (map (\<lambda>c. c # descendants c) cs)"

text \<open>\<open>e.findall(".//p:x", NS)\<close> and \<open>e.find(".//p:x", NS)\<close>.\<close>

definition findall_desc :: "string \<Rightarrow> element \<Rightarrow> element list" where
  "findall_desc t e = filter (\<lambda>c. tag c = t) (descendants e)"

definition find_desc :: "string \<Rightarrow> element \<Rightarrow> element option" where
  "find_desc t e = List.find (\<lambda>c. tag c = t) (descendants e)"

text \<open>
  A member of the archive: its bytes, and the tree \<open>ET.fromstring\<close> builds from them
  (\<open>None\<close>: the bytes are not well-formed XML). The archive maps member names to members.
\<close>

record member =
  data :: string
  xml :: "element option"

type_synonym zipfile = "string \<rightharpoonup> member"

text \<open>\<open>zip_file.read(name)\<close> raises \<open>KeyError\<close> for a name that is not in the archive.\<close>

definition zip_read :: "zipfile \<Rightarrow> string \<Rightarrow> error + string" where
  "zip_read z n = (case z n of None \<Rightarrow> Inl KeyError | Some m \<Rightarrow> Inr (data m))"

text \<open>\<open>ET.fromstring(zip_file.read(name))\<close>.\<close>

definition read_xml :: "zipfile \<Rightarrow> string \<Rightarrow> error + element" where
  "read_xml z n =
     (case z n of
        None \<Rightarrow> Inl KeyError
      | Some m \<Rightarrow> (case xml m of None \<Rightarrow> Inl ParseError | Some e \<Rightarrow> Inr e))"

text \<open>\<open>xs[i]\<close> on a list: a negative index counts from the end.\<close>

definition list_get :: "'a list \<Rightarrow> int \<Rightarrow> error + 'a" where
  "list_get xs i =
     (if 0 \<le> i \<and> i < int (length xs) then Inr (xs ! nat i)
      else if i < 0 \<and> - int (length xs) \<le> i then Inr (xs ! nat (int (length xs) + i))
      else Inl IndexError)"

subsection \<open>The script's constants\<close>

definition POSITION_NAME_OVERRIDES :: "string \<rightharpoonup> string" where
  "POSITION_NAME_OVERRIDES =
     [''Vice President of Internal Affa'' \<mapsto> ''Vice President of Internal Affairs'',
      ''International Student Affairs O'' \<mapsto> ''International Student Affairs Officer'']"

text \<open>\<open>HEADSHOT_DIR\<close>, relative to \<open>ROOT\<close>.\<close>

definition HEADSHOT_DIR :: string where
  "HEADSHOT_DIR = ''assets/headshots''"

subsection \<open>\<open>load_shared_strings\<close>\<close>

definition load_shared_strings :: "zipfile \<Rightarrow> error + string list" where
  "load_shared_strings z =
     (if z ''xl/sharedStrings.xml'' = None then Inr []
      else case read_xml z ''xl/sharedStrings.xml'' of
             Inl e \<Rightarrow> Inl e
           | Inr root \<Rightarrow>
               Inr (map (\<lambda>si. concat (map (\<lambda>t. or_empty (elem_text t))
                                          (findall_desc (qname ns_main ''t'') si)))
                        (findall_desc (qname ns_main ''si'') root)))"

subsection \<open>\<open>load_sheet_targets\<close>\<close>

text \<open>
  The dictionary comprehensions over the \<open>Relationship\<close> elements, in
  \<open>load_sheet_targets\<close> (with the target as it is) and in \<open>map_anchor_rows_to_images\<close>
  (with the target joined to the drawing's directory and normalised): \<open>f\<close> is what is
  done to the target. \<open>rel.attrib["Id"]\<close> and \<open>rel.attrib["Target"]\<close> raise \<open>KeyError\<close>
  when the attribute is missing; a later entry with the same id replaces an earlier one.
\<close>

fun rel_dict ::
  "(string \<Rightarrow> string) \<Rightarrow> (string \<rightharpoonup> string) \<Rightarrow> element list \<Rightarrow> error + (string \<rightharpoonup> string)"
where
  "rel_dict f m [] = Inr m"
| "rel_dict f m (rel # rels) =
     (case attrib rel ''Id'' of
        None \<Rightarrow> Inl KeyError
      | Some i \<Rightarrow>
          (case attrib rel ''Target'' of
             None \<Rightarrow> Inl KeyError
           | Some t \<Rightarrow> rel_dict f (m(i \<mapsto> f t)) rels))"

text \<open>\<open>rel_map.get(rel_id)\<close>, where \<open>rel_id\<close> itself may be \<open>None\<close>.\<close>

definition get_opt :: "('k \<rightharpoonup> 'v) \<Rightarrow> 'k option \<Rightarrow> 'v option" where
  "get_opt m k = (case k of None \<Rightarrow> None | Some i \<Rightarrow> m i)"

text \<open>The loop over the children of the \<open>sheets\<close> element.\<close>

fun sheets_loop :: "(string \<rightharpoonup> string) \<Rightarrow> element list \<Rightarrow> (string \<times> string) list" where
  "sheets_loop rel_map [] = []"
| "sheets_loop rel_map (sh # rest) =
     (let rel_id = attrib sh (qname ns_r ''id'');
          target = get_opt rel_map rel_id
      in if \<not> truthy target then sheets_loop rel_map rest
         else
           let sheet_path = normpath (path_join ''xl'' (the target))
           in (case attrib sh ''name'' of None \<Rightarrow> the target | Some n \<Rightarrow> n, sheet_path)
              # sheets_loop rel_map rest)"

text \<open>Iterating the result of \<open>workbook.find(...)\<close> raises \<open>TypeError\<close> when it is \<open>None\<close>.\<close>

definition load_sheet_targets :: "zipfile \<Rightarrow> error + (string \<times> string) list" where
  "load_sheet_targets z =
     (case read_xml z ''xl/workbook.xml'' of
        Inl e \<Rightarrow> Inl e
      | Inr workbook \<Rightarrow>
          (case read_xml z ''xl/_rels/workbook.xml.rels'' of
             Inl e \<Rightarrow> Inl e
           | Inr rel_root \<Rightarrow>
               (case rel_dict (\<lambda>t. t) Map.empty (findall (qname ns_rel ''Relationship'') rel_root) of
                  Inl e \<Rightarrow> Inl e
                | Inr rel_map \<Rightarrow>
                    (case find_child (qname ns_main ''sheets'') workbook of
                       None \<Rightarrow> Inl TypeError
                     | Some sheets \<Rightarrow> Inr (sheets_loop rel_map (children sheets))))))"

subsection \<open>\<open>read_sheet_rows\<close>\<close>

text \<open>The loop over the cells of one row; \<open>cells\<close> is the dictionary built so far.\<close>

fun cells_loop ::
  "string list \<Rightarrow> (string \<rightharpoonup> string) \<Rightarrow> element list \<Rightarrow> error + (string \<rightharpoonup> string)"
where
  "cells_loop shared_strings cells [] = Inr cells"
| "cells_loop shared_strings cells (cell # rest) =
     (let coord = (case attrib cell ''r'' of None \<Rightarrow> [] | Some c \<Rightarrow> c);
          col = filter isalpha coord;
          cell_type = attrib cell ''t'';
          value_element = find_child (qname ns_main ''v'') cell
      in case value_element of
           None \<Rightarrow> cells_loop shared_strings cells rest
         | Some v \<Rightarrow>
             if col = [] then cells_loop shared_strings cells rest
             else
               let raw_value = or_empty (elem_text v)
               in if cell_type = Some ''s''
                  then (case py_int raw_value of
                          Inl e \<Rightarrow> Inl e
                        | Inr i \<Rightarrow>
                            (case list_get shared_strings i of
                               Inl e \<Rightarrow> Inl e
                             | Inr s \<Rightarrow> cells_loop shared_strings (cells(col \<mapsto> s)) rest))
                  else cells_loop shared_strings (cells(col \<mapsto> raw_value)) rest)"

text \<open>The loop over the \<open>row\<close> elements.\<close>

fun rows_loop :: "string list \<Rightarrow> element list \<Rightarrow> error + (int \<times> (string \<rightharpoonup> string)) list" where
  "rows_loop shared_strings [] = Inr []"
| "rows_loop shared_strings (row # rest) =
     (case py_int (case attrib row ''r'' of None \<Rightarrow> ''0'' | Some r \<Rightarrow> r) of
        Inl e \<Rightarrow> Inl e
      | Inr row_idx \<Rightarrow>
          (case cells_loop shared_strings Map.empty (findall (qname ns_main ''c'') row) of
             Inl e \<Rightarrow> Inl e
           | Inr cells \<Rightarrow>
               (case rows_loop shared_strings rest of
                  Inl e \<Rightarrow> Inl e
                | Inr rows \<Rightarrow> Inr ((row_idx, cells) # rows))))"

definition read_sheet_rows ::
  "zipfile \<Rightarrow> string \<Rightarrow> string list \<Rightarrow> error + (int \<times> (string \<rightharpoonup> string)) list"
where
  "read_sheet_rows z sheet_path shared_strings =
     (case read_xml z sheet_path of
        Inl e \<Rightarrow> Inl e
      | Inr root \<Rightarrow> rows_loop shared_strings (findall_desc (qname ns_main ''row'') root))"

subsection \<open>\<open>find_drawing_path\<close>\<close>

text \<open>The path of the relationship file beside a document.\<close>

definition rels_path :: "string \<Rightarrow> string" where
  "rels_path p = path_join (path_join (dirname p) ''_rels'') (path_name p @ ''.rels'')"

text \<open>The loop over the \<open>Relationship\<close> elements: it returns at the first drawing.\<close>

fun drawing_loop :: "string \<Rightarrow> element list \<Rightarrow> error + string option" where
  "drawing_loop sheet_path [] = Inr None"
| "drawing_loop sheet_path (rel # rels) =
     (if endswith (case attrib rel ''Type'' of None \<Rightarrow> [] | Some t \<Rightarrow> t) ''/drawing''
      then (case attrib rel ''Target'' of
              None \<Rightarrow> Inl KeyError
            | Some target \<Rightarrow> Inr (Some (normpath (path_join (dirname sheet_path) target))))
      else drawing_loop sheet_path rels)"

definition find_drawing_path :: "zipfile \<Rightarrow> string \<Rightarrow> error + string option" where
  "find_drawing_path z sheet_path =
     (let rel_path = rels_path sheet_path
      in if z rel_path = None then Inr None
         else case read_xml z rel_path of
                Inl e \<Rightarrow> Inl e
              | Inr rel_root \<Rightarrow>
                  drawing_loop sheet_path (findall (qname ns_rel ''Relationship'') rel_root))"

subsection \<open>\<open>map_anchor_rows_to_images\<close>\<close>

text \<open>
  The body of the loop over the anchors: \<open>Inr None\<close> is \<open>continue\<close>,
  \<open>Inr (Some (k, p))\<close> is the assignment \<open>anchors[k] = p\<close>.
\<close>

definition anchor_entry :: "(string \<rightharpoonup> string) \<Rightarrow> element \<Rightarrow> error + (int \<times> string) option" where
  "anchor_entry rel_map anchor =
     (case find_child (qname ns_xdr ''from'') anchor of
        None \<Rightarrow> Inr None
      | Some from_cell \<Rightarrow>
          (case find_child (qname ns_xdr ''pic'') anchor of
             None \<Rightarrow> Inr None
           | Some pic \<Rightarrow>
               (case find_child (qname ns_xdr ''row'') from_cell of
                  None \<Rightarrow> Inl AttributeError
                | Some row_el \<Rightarrow>
                    (case elem_text row_el of
                       None \<Rightarrow> Inl TypeError
                     | Some txt \<Rightarrow>
                         (case py_int txt of
                            Inl e \<Rightarrow> Inl e
                          | Inr row_idx \<Rightarrow>
                              (case find_desc (qname ns_a ''blip'') pic of
                                 None \<Rightarrow> Inr None
                               | Some blip \<Rightarrow>
                                   (let embed_id = attrib blip (qname ns_r ''embed'');
                                        image_path = get_opt rel_map embed_id
                                    in if \<not> truthy image_path then Inr None
                                       else Inr (Some (row_idx + 1, the image_path)))))))))"

fun anchors_loop ::
  "(string \<rightharpoonup> string) \<Rightarrow> (int \<rightharpoonup> string) \<Rightarrow> element list \<Rightarrow> error + (int \<rightharpoonup> string)"
where
  "anchors_loop rel_map anchors [] = Inr anchors"
| "anchors_loop rel_map anchors (anchor # rest) =
     (case anchor_entry rel_map anchor of
        Inl e \<Rightarrow> Inl e
      | Inr None \<Rightarrow> anchors_loop rel_map anchors rest
      | Inr (Some (k, p)) \<Rightarrow> anchors_loop rel_map (anchors(k \<mapsto> p)) rest)"

definition map_anchor_rows_to_images :: "zipfile \<Rightarrow> string \<Rightarrow> error + (int \<rightharpoonup> string)" where
  "map_anchor_rows_to_images z drawing_path =
     (let drawing_rel_path = rels_path drawing_path
      in case read_xml z drawing_rel_path of
           Inl e \<Rightarrow> Inl e
         | Inr rel_root \<Rightarrow>
             (case rel_dict (\<lambda>t. normpath (path_join (dirname drawing_path) t)) Map.empty
                     (findall (qname ns_rel ''Relationship'') rel_root) of
                Inl e \<Rightarrow> Inl e
              | Inr rel_map \<Rightarrow>
                  (case read_xml z drawing_path of
                     Inl e \<Rightarrow> Inl e
                   | Inr drawing \<Rightarrow> anchors_loop rel_map Map.empty (children drawing))))"

subsection \<open>\<open>main\<close>\<close>

record candidate =
  name :: string
  statement :: string
  headshot :: "string option"

record position =
  title :: string
  slug :: string
  sheet :: string
  candidates :: "candidate list"

text \<open>
  The files below \<open>ROOT\<close> that the script writes, by their path relative to \<open>ROOT\<close>.
  Removing an existing file and writing it again leaves the new bytes under the path.
\<close>

type_synonym files = "string \<rightharpoonup> string"

definition ensure_headshot_path :: "string \<Rightarrow> string \<Rightarrow> string" where
  "ensure_headshot_path base ext = HEADSHOT_DIR @ ''/'' @ base @ ext"

text \<open>
  The loop over the data rows of one sheet. It returns the candidates in the order of the
  rows, and the files after the headshots have been written.
\<close>

fun candidates_loop ::
  "zipfile \<Rightarrow> string \<Rightarrow> (int \<rightharpoonup> string) \<Rightarrow> files \<Rightarrow> (int \<times> (string \<rightharpoonup> string)) list
     \<Rightarrow> error + (candidate list \<times> files)"
where
  "candidates_loop z display_name row_image_map fs [] = Inr ([], fs)"
| "candidates_loop z display_name row_image_map fs ((row_idx, cells) # rest) =
     (let nm = strip (or_empty (cells ''A''))
      in if nm = [] then candidates_loop z display_name row_image_map fs rest
         else
           let stmt = strip (replace_tab (or_empty (cells ''C'')));
               headshot_rel = row_image_map row_idx
           in if truthy headshot_rel
              then
                (let zip_image_path = normpath (the headshot_rel)
                 in case zip_read z zip_image_path of
                      Inl e \<Rightarrow> Inl e
                    | Inr image_bytes \<Rightarrow>
                        (let ext = (if path_suffix zip_image_path = [] then ''.jpg''
                                    else path_suffix zip_image_path);
                             file_stem = slugify display_name @ ''-''
                                          @ (if slugify nm = [] then ''row-'' @ str_int row_idx
                                             else slugify nm);
                             output_path = ensure_headshot_path file_stem ext
                         in case candidates_loop z display_name row_image_map
                                   (fs(output_path \<mapsto> image_bytes)) rest of
                              Inl e \<Rightarrow> Inl e
                            | Inr (cs, fs') \<Rightarrow>
                                Inr (\<lparr>name = nm, statement = stmt, headshot = Some output_path\<rparr> # cs,
                                     fs')))
              else
                (case candidates_loop z display_name row_image_map fs rest of
                   Inl e \<Rightarrow> Inl e
                 | Inr (cs, fs') \<Rightarrow>
                     Inr (\<lparr>name = nm, statement = stmt, headshot = None\<rparr> # cs, fs')))"

text \<open>
  The body of the loop over the sheets: \<open>Inr (None, fs)\<close> is \<open>continue\<close>,
  \<open>Inr (Some p, fs')\<close> appends the position \<open>p\<close>. The first row is the header.
\<close>

definition sheet_position ::
  "zipfile \<Rightarrow> string list \<Rightarrow> files \<Rightarrow> string \<times> string \<Rightarrow> error + (position option \<times> files)"
where
  "sheet_position z shared_strings fs target =
     (let sheet_name = fst target;
          sheet_path = snd target;
          display_name = (case POSITION_NAME_OVERRIDES sheet_name of
                            None \<Rightarrow> sheet_name | Some d \<Rightarrow> d)
      in case find_drawing_path z sheet_path of
           Inl e \<Rightarrow> Inl e
         | Inr drawing_path \<Rightarrow>
             (case (if truthy drawing_path
                    then map_anchor_rows_to_images z (the drawing_path)
                    else Inr Map.empty) of
                Inl e \<Rightarrow> Inl e
              | Inr row_image_map \<Rightarrow>
                  (case read_sheet_rows z sheet_path shared_strings of
                     Inl e \<Rightarrow> Inl e
                   | Inr rows \<Rightarrow>
                       if rows = [] then Inr (None, fs)
                       else
                         (case candidates_loop z display_name row_image_map fs (tl rows) of
                            Inl e \<Rightarrow> Inl e
                          | Inr (cs, fs') \<Rightarrow>
                              Inr (Some \<lparr>title = display_name, slug = slugify display_name,
                                         sheet = sheet_name, candidates = cs\<rparr>, fs')))))"

fun positions_loop ::
  "zipfile \<Rightarrow> string list \<Rightarrow> files \<Rightarrow> (string \<times> string) list \<Rightarrow> error + (position list \<times> files)"
where
  "positions_loop z shared_strings fs [] = Inr ([], fs)"
| "positions_loop z shared_strings fs (target # rest) =
     (case sheet_position z shared_strings fs target of
        Inl e \<Rightarrow> Inl e
      | Inr (p, fs') \<Rightarrow>
          (case positions_loop z shared_strings fs' rest of
             Inl e \<Rightarrow> Inl e
           | Inr (ps, fs'') \<Rightarrow>
               Inr ((case p of None \<Rightarrow> ps | Some q \<Rightarrow> q # ps), fs'')))"

text \<open>
  What a run leaves behind: the exit status, the positions written to \<open>DATA_PATH\<close>
  (\<open>None\<close> when that file is not written) and the headshot files. The JSON text itself is
  \<open>json.dumps\<close> of the positions and is not modelled. \<open>pkg\<close> is the archive opened from
  the spreadsheet at \<open>XLSX_PATH\<close>, \<open>None\<close> when there is no such file. Creating the output
  directories changes no file. When a run raises, the files written before are not reported.
\<close>

record run =
  status :: int
  written :: "position list option"
  headshots :: files

definition main :: "zipfile option \<Rightarrow> files \<Rightarrow> error + run" where
  "main pkg fs =
     (case pkg of
        None \<Rightarrow> Inr \<lparr>status = 1, written = None, headshots = fs\<rparr>
      | Some z \<Rightarrow>
          (case load_shared_strings z of
             Inl e \<Rightarrow> Inl e
           | Inr shared_strings \<Rightarrow>
               (case load_sheet_targets z of
                  Inl e \<Rightarrow> Inl e
                | Inr sheet_targets \<Rightarrow>
                    (case positions_loop z shared_strings fs sheet_targets of
                       Inl e \<Rightarrow> Inl e
                     | Inr (positions, fs') \<Rightarrow>
                         Inr \<lparr>status = 0, written = Some positions, headshots = fs'\<rparr>))))"

section \<open>An example package\<close>

text \<open>
  A workbook that declares three sheets: \<open>Pres\<close> (a header row, the candidate Alice in
  grid row 3 with her cells in the shared-string table, and a row with a blank name),
  \<open>Ghost\<close> (its relationship id is not declared) and \<open>Treasurer\<close> (a header row only).
  The sheet \<open>Pres\<close> names two drawings; the first has two pictures anchored at zero-based
  row 2.
\<close>

definition ex_shared_strings :: element where
  "ex_shared_strings =
     Element (qname ns_main ''sst'') Map.empty None
       [Element (qname ns_main ''si'') Map.empty None
          [Element (qname ns_main ''t'') Map.empty (Some ''Alice'') []],
        Element (qname ns_main ''si'') Map.empty None
          [Element (qname ns_main ''r'') Map.empty None
             [Element (qname ns_main ''t'') Map.empty (Some ''Vote '') []],
           Element (qname ns_main ''r'') Map.empty None
             [Element (qname ns_main ''t'') Map.empty (Some ''for me'') []]]]"

definition ex_cell :: "(string \<rightharpoonup> string) \<Rightarrow> string \<Rightarrow> element" where
  "ex_cell attrs v =
     Element (qname ns_main ''c'') attrs None [Element (qname ns_main ''v'') Map.empty (Some v) []]"

definition ex_sheet1 :: element where
  "ex_sheet1 =
     Element (qname ns_main ''worksheet'') Map.empty None
       [Element (qname ns_main ''sheetData'') Map.empty None
          [Element (qname ns_main ''row'') [''r'' \<mapsto> ''1''] None
             [ex_cell [''r'' \<mapsto> ''A1''] ''Name'', ex_cell [''r'' \<mapsto> ''C1''] ''Statement''],
           Element (qname ns_main ''row'') [''r'' \<mapsto> ''3''] None
             [ex_cell [''r'' \<mapsto> ''A3'', ''t'' \<mapsto> ''s''] ''0'',
              ex_cell [''r'' \<mapsto> ''C3'', ''t'' \<mapsto> ''s''] ''1''],
           Element (qname ns_main ''row'') [''r'' \<mapsto> ''4''] None
             [ex_cell [''r'' \<mapsto> ''A4''] ''  '', ex_cell [''r'' \<mapsto> ''C4''] ''ignored'']]]"

definition ex_sheet2 :: element where
  "ex_sheet2 =
     Element (qname ns_main ''worksheet'') Map.empty None
       [Element (qname ns_main ''sheetData'') Map.empty None
          [Element (qname ns_main ''row'') [''r'' \<mapsto> ''1''] None
             [ex_cell [''r'' \<mapsto> ''A1''] ''Name'', ex_cell [''r'' \<mapsto> ''C1''] ''Statement'']]]"

definition ex_sheet1_rels :: element where
  "ex_sheet1_rels =
     Element (qname ns_rel ''Relationships'') Map.empty None
       [Element (qname ns_rel ''Relationship'')
          [''Id'' \<mapsto> ''rId1'', ''Type'' \<mapsto> ''http://example.org/rel/drawing'',
           ''Target'' \<mapsto> ''../drawings/drawing1.xml''] None [],
        Element (qname ns_rel ''Relationship'')
          [''Id'' \<mapsto> ''rId2'', ''Type'' \<mapsto> ''http://example.org/rel/drawing'',
           ''Target'' \<mapsto> ''../drawings/drawing2.xml''] None []]"

definition ex_anchor :: "string \<Rightarrow> string \<Rightarrow> element" where
  "ex_anchor r e =
     Element (qname ns_xdr ''twoCellAnchor'') Map.empty None
       [Element (qname ns_xdr ''from'') Map.empty None
          [Element (qname ns_xdr ''col'') Map.empty (Some ''1'') [],
           Element (qname ns_xdr ''row'') Map.empty (Some r) []],
        Element (qname ns_xdr ''pic'') Map.empty None
          [Element (qname ns_xdr ''blipFill'') Map.empty None
             [Element (qname ns_a ''blip'') [qname ns_r ''embed'' \<mapsto> e] None []]]]"

definition ex_drawing1 :: element where
  "ex_drawing1 =
     Element (qname ns_xdr ''wsDr'') Map.empty None
       [ex_anchor ''2'' ''rId1'', ex_anchor ''2'' ''rId2'']"

definition ex_drawing1_rels :: element where
  "ex_drawing1_rels =
     Element (qname ns_rel ''Relationships'') Map.empty None
       [Element (qname ns_rel ''Relationship'')
          [''Id'' \<mapsto> ''rId1'', ''Target'' \<mapsto> ''../media/image1.png''] None [],
        Element (qname ns_rel ''Relationship'')
          [''Id'' \<mapsto> ''rId2'', ''Target'' \<mapsto> ''../media/image2.png''] None []]"

definition ex_workbook :: element where
  "ex_workbook =
     Element (qname ns_main ''workbook'') Map.empty None
       [Element (qname ns_main ''sheets'') Map.empty None
          [Element (qname ns_main ''sheet'') [''name'' \<mapsto> ''Pres'', qname ns_r ''id'' \<mapsto> ''rId1''] None [],
           Element (qname ns_main ''sheet'') [''name'' \<mapsto> ''Ghost'', qname ns_r ''id'' \<mapsto> ''rId7''] None [],
           Element (qname ns_main ''sheet'') [''name'' \<mapsto> ''Treasurer'', qname ns_r ''id'' \<mapsto> ''rId2''] None []]]"

definition ex_workbook_rels :: element where
  "ex_workbook_rels =
     Element (qname ns_rel ''Relationships'') Map.empty None
       [Element (qname ns_rel ''Relationship'') [''Id'' \<mapsto> ''rId1'', ''Target'' \<mapsto> ''worksheets/sheet1.xml''] None [],
        Element (qname ns_rel ''Relationship'') [''Id'' \<mapsto> ''rId2'', ''Target'' \<mapsto> ''worksheets/sheet2.xml''] None []]"

definition ex_pkg :: zipfile where
  "ex_pkg =
     [''xl/workbook.xml'' \<mapsto> \<lparr>data = ''<workbook>'', xml = Some ex_workbook\<rparr>,
      ''xl/_rels/workbook.xml.rels'' \<mapsto> \<lparr>data = ''<Relationships>'', xml = Some ex_workbook_rels\<rparr>,
      ''xl/sharedStrings.xml'' \<mapsto> \<lparr>data = ''<sst>'', xml = Some ex_shared_strings\<rparr>,
      ''xl/worksheets/sheet1.xml'' \<mapsto> \<lparr>data = ''<worksheet>'', xml = Some ex_sheet1\<rparr>,
      ''xl/worksheets/sheet2.xml'' \<mapsto> \<lparr>data = ''<worksheet>'', xml = Some ex_sheet2\<rparr>,
      ''xl/worksheets/_rels/sheet1.xml.rels'' \<mapsto> \<lparr>data = ''<Relationships>'', xml = Some ex_sheet1_rels\<rparr>,
      ''xl/drawings/drawing1.xml'' \<mapsto> \<lparr>data = ''<wsDr>'', xml = Some ex_drawing1\<rparr>,
      ''xl/drawings/_rels/drawing1.xml.rels'' \<mapsto> \<lparr>data = ''<Relationships>'', xml = Some ex_drawing1_rels\<rparr>,
      ''xl/media/image1.png'' \<mapsto> \<lparr>data = ''PNG-1'', xml = None\<rparr>,
      ''xl/media/image2.png'' \<mapsto> \<lparr>data = ''PNG-2'', xml = None\<rparr>]"


text \<open>The same package without the relationship file of the drawing.\<close>

definition ex_pkg_no_drawing_rels :: zipfile where
  "ex_pkg_no_drawing_rels = ex_pkg(''xl/drawings/_rels/drawing1.xml.rels'' := None)"

text \<open>A sheet whose data row has no \<open>r\<close> attribute, in the example package and in one
  whose drawing is anchored at row \<open>-1\<close>.\<close>

definition ex_sheet_rowless :: element where
  "ex_sheet_rowless =
     Element (qname ns_main ''worksheet'') Map.empty None
       [Element (qname ns_main ''sheetData'') Map.empty None
          [Element (qname ns_main ''row'') [''r'' \<mapsto> ''1''] None
             [ex_cell [''r'' \<mapsto> ''A1''] ''Name''],
           Element (qname ns_main ''row'') Map.empty None
             [ex_cell [''r'' \<mapsto> ''A2''] ''Bob'']]]"

definition ex_drawing_neg :: element where
  "ex_drawing_neg = Element (qname ns_xdr ''wsDr'') Map.empty None [ex_anchor ''-1'' ''rId1'']"

definition ex_pkg_rowless_ok :: zipfile where
  "ex_pkg_rowless_ok =
     ex_pkg(''xl/worksheets/sheet1.xml'' \<mapsto> \<lparr>data = ''<worksheet>'', xml = Some ex_sheet_rowless\<rparr>)"

definition ex_pkg_rowless :: zipfile where
  "ex_pkg_rowless =
     ex_pkg_rowless_ok(''xl/drawings/drawing1.xml'' \<mapsto> \<lparr>data = ''<wsDr>'', xml = Some ex_drawing_neg\<rparr>)"

text \<open>A sheet whose only cell refers to the shared string \<open>-1\<close>.\<close>

definition ex_sheet_negidx :: element where
  "ex_sheet_negidx =
     Element (qname ns_main ''worksheet'') Map.empty None
       [Element (qname ns_main ''sheetData'') Map.empty None
          [Element (qname ns_main ''row'') [''r'' \<mapsto> ''1''] None
             [ex_cell [''r'' \<mapsto> ''A1'', ''t'' \<mapsto> ''s''] ''-1'']]]"

definition ex_pkg_negidx :: zipfile where
  "ex_pkg_negidx =
     ex_pkg(''xl/worksheets/sheet1.xml'' \<mapsto> \<lparr>data = ''<worksheet>'', xml = Some ex_sheet_negidx\<rparr>)"

text \<open>Data rows as the row reader returns them: a name with spaces around it and a
  statement with a tab, a blank name, and a name without a statement.\<close>

definition ex_rows :: "(int \<times> (string \<rightharpoonup> string)) list" where
  "ex_rows =
     [(2, [''A'' \<mapsto> '' Bob '', ''C'' \<mapsto> [CHR ''a'', CHR 0x09, CHR ''b'']]),
      (3, [''A'' \<mapsto> ''  '', ''C'' \<mapsto> ''ignored'']),
      (4, [''A'' \<mapsto> ''Eve''])]"

text \<open>A drawing in which two pictures are anchored at zero-based row 5.\<close>

definition ex_drawing_dups :: element where
  "ex_drawing_dups =
     Element (qname ns_xdr ''wsDr'') Map.empty None
       [ex_anchor ''5'' ''rId2'', ex_anchor ''5'' ''rId1'', ex_anchor ''2'' ''rId1'',
        ex_anchor ''7'' ''rId2'']"

definition ex_pkg_dups :: zipfile where
  "ex_pkg_dups =
     ex_pkg(''xl/drawings/drawing1.xml'' \<mapsto> \<lparr>data = ''<wsDr>'', xml = Some ex_drawing_dups\<rparr>)"

text \<open>Data rows whose texts have no whitespace around them and no tab.\<close>

definition ex_rows_clean :: "(int \<times> (string \<rightharpoonup> string)) list" where
  "ex_rows_clean =
     [(2, [''A'' \<mapsto> ''Alice'', ''C'' \<mapsto> ''Vote for me'']),
      (3, [''C'' \<mapsto> ''ignored''])]"

text \<open>A workbook with three resolved sheets: \<open>Pres\<close>, \<open>Secretary\<close> (a sheet with no row at
  all) and \<open>Treasurer\<close> (a header row only).\<close>

definition ex_workbook3 :: element where
  "ex_workbook3 =
     Element (qname ns_main ''workbook'') Map.empty None
       [Element (qname ns_main ''sheets'') Map.empty None
          [Element (qname ns_main ''sheet'') [''name'' \<mapsto> ''Pres'', qname ns_r ''id'' \<mapsto> ''rId1''] None [],
           Element (qname ns_main ''sheet'') [''name'' \<mapsto> ''Secretary'', qname ns_r ''id'' \<mapsto> ''rId3''] None [],
           Element (qname ns_main ''sheet'') [''name'' \<mapsto> ''Treasurer'', qname ns_r ''id'' \<mapsto> ''rId2''] None []]]"

definition ex_workbook3_rels :: element where
  "ex_workbook3_rels =
     Element (qname ns_rel ''Relationships'') Map.empty None
       [Element (qname ns_rel ''Relationship'') [''Id'' \<mapsto> ''rId1'', ''Target'' \<mapsto> ''worksheets/sheet1.xml''] None [],
        Element (qname ns_rel ''Relationship'') [''Id'' \<mapsto> ''rId2'', ''Target'' \<mapsto> ''worksheets/sheet2.xml''] None [],
        Element (qname ns_rel ''Relationship'') [''Id'' \<mapsto> ''rId3'', ''Target'' \<mapsto> ''worksheets/sheet3.xml''] None []]"

definition ex_sheet_empty :: element where
  "ex_sheet_empty =
     Element (qname ns_main ''worksheet'') Map.empty None
       [Element (qname ns_main ''sheetData'') Map.empty None []]"

definition ex_pkg3 :: zipfile where
  "ex_pkg3 =
     ex_pkg(''xl/workbook.xml'' \<mapsto> \<lparr>data = ''<workbook>'', xml = Some ex_workbook3\<rparr>,
            ''xl/_rels/workbook.xml.rels'' \<mapsto> \<lparr>data = ''<Relationships>'', xml = Some ex_workbook3_rels\<rparr>,
            ''xl/worksheets/sheet3.xml'' \<mapsto> \<lparr>data = ''<worksheet>'', xml = Some ex_sheet_empty\<rparr>)"

text \<open>A sheet whose only cell is of the shared-string type and has no coordinate.\<close>

definition ex_sheet_nocoord :: element where
  "ex_sheet_nocoord =
     Element (qname ns_main ''worksheet'') Map.empty None
       [Element (qname ns_main ''sheetData'') Map.empty None
          [Element (qname ns_main ''row'') [''r'' \<mapsto> ''1''] None
             [ex_cell [''t'' \<mapsto> ''s''] ''0'']]]"

definition ex_pkg_nocoord :: zipfile where
  "ex_pkg_nocoord =
     ex_pkg(''xl/worksheets/sheet1.xml'' \<mapsto> \<lparr>data = ''<worksheet>'', xml = Some ex_sheet_nocoord\<rparr>)"

section \<open>Properties\<close>

subsection \<open>Auxiliary facts\<close>

lemmas ex_defs =
  ex_pkg_def ex_workbook_def ex_workbook_rels_def ex_shared_strings_def ex_cell_def
  ex_sheet1_def ex_sheet2_def ex_sheet1_rels_def ex_anchor_def ex_drawing1_def
  ex_drawing1_rels_def

lemma qname_eq [simp]: "(qname ns a = qname ns b) = (a = b)"
  by (simp add: qname_def)

lemma read_xml_member:
  assumes "read_xml z n = Inr e"
  shows "\<exists>m. z n = Some m \<and> xml m = Some e"
  using assms by (auto simp: read_xml_def split: option.splits)

lemma rel_dict_total:
  assumes "\<forall>rel\<in>set rels. attrib rel ''Id'' \<noteq> None \<and> attrib rel ''Target'' \<noteq> None"
  shows "rel_dict f m rels =
           Inr (m ++ map_of (rev (map (\<lambda>rel. (the (attrib rel ''Id''), f (the (attrib rel ''Target'')))) rels)))"
  using assms
proof (induction rels arbitrary: m)
  case Nil
  then show ?case by simp
next
  case (Cons rel rels)
  then obtain i t where it: "attrib rel ''Id'' = Some i" "attrib rel ''Target'' = Some t"
    by auto
  have "rel_dict f m (rel # rels) = rel_dict f (m(i \<mapsto> f t)) rels"
    using it by simp
  also have "\<dots> = Inr (m(i \<mapsto> f t) ++
      map_of (rev (map (\<lambda>rel. (the (attrib rel ''Id''), f (the (attrib rel ''Target'')))) rels)))"
    using Cons by simp
  finally show ?case
    using it by (simp add: map_add_upd_left map_add_assoc)
qed

lemma sheets_loop_filter:
  "sheets_loop rel_map shs =
     map (\<lambda>sh. (case attrib sh ''name'' of
                   None \<Rightarrow> the (get_opt rel_map (attrib sh (qname ns_r ''id'')))
                 | Some n \<Rightarrow> n,
                 normpath (path_join ''xl'' (the (get_opt rel_map (attrib sh (qname ns_r ''id'')))))))
         (filter (\<lambda>sh. truthy (get_opt rel_map (attrib sh (qname ns_r ''id'')))) shs)"
  by (induction shs) (simp_all add: Let_def)

lemma drawing_loop_skip:
  assumes "\<forall>x\<in>set pre. \<not> endswith (case attrib x ''Type'' of None \<Rightarrow> [] | Some t \<Rightarrow> t) ''/drawing''"
  shows "drawing_loop sheet_path (pre @ rest) = drawing_loop sheet_path rest"
  using assms by (induction pre) simp_all

lemma anchors_loop_append:
  "anchors_loop rel_map m0 (xs @ ys) =
     (case anchors_loop rel_map m0 xs of Inl e \<Rightarrow> Inl e | Inr m1 \<Rightarrow> anchors_loop rel_map m1 ys)"
  by (induction xs arbitrary: m0) (auto split: sum.splits option.splits)

lemma anchors_loop_untouched:
  assumes "anchors_loop rel_map m1 post = Inr m"
    and "\<forall>b\<in>set post. \<forall>q. anchor_entry rel_map b \<noteq> Inr (Some (k, q))"
  shows "m k = m1 k"
  using assms
proof (induction post arbitrary: m1)
  case Nil
  then show ?case by simp
next
  case (Cons b post)
  show ?case
  proof (cases "anchor_entry rel_map b")
    case (Inl e)
    with Cons.prems show ?thesis by simp
  next
    case (Inr entry)
    show ?thesis
    proof (cases entry)
      case None
      with Inr Cons show ?thesis by simp
    next
      case (Some kp)
      obtain k' p' where kp: "kp = (k', p')" by (cases kp)
      have neq: "k' \<noteq> k" using Cons.prems(2) Inr Some kp by auto
      have step: "anchors_loop rel_map (m1(k' \<mapsto> p')) post = Inr m"
        using Cons.prems(1) Inr Some kp by simp
      have rest: "\<forall>b\<in>set post. \<forall>q. anchor_entry rel_map b \<noteq> Inr (Some (k, q))"
        using Cons.prems(2) by simp
      have "m k = (m1(k' \<mapsto> p')) k"
        by (rule Cons.IH [OF step rest])
      then show ?thesis
        using neq by simp
    qed
  qed
qed

lemma anchors_loop_last:
  assumes run: "anchors_loop rel_map m0 (pre @ a # post) = Inr m"
    and entry: "anchor_entry rel_map a = Inr (Some (k, p))"
    and later: "\<forall>b\<in>set post. \<forall>q. anchor_entry rel_map b \<noteq> Inr (Some (k, q))"
  shows "m k = Some p"
proof -
  obtain m1 where m1: "anchors_loop rel_map m0 pre = Inr m1"
    and rest: "anchors_loop rel_map m1 (a # post) = Inr m"
    using run by (auto simp: anchors_loop_append split: sum.splits)
  have "anchors_loop rel_map (m1(k \<mapsto> p)) post = Inr m"
    using rest entry by simp
  from anchors_loop_untouched [OF this later] show ?thesis by simp
qed

lemma map_anchor_unfold:
  assumes "read_xml z (rels_path drawing_path) = Inr rel_root"
    and "rel_dict (\<lambda>t. normpath (path_join (dirname drawing_path) t)) Map.empty
           (findall (qname ns_rel ''Relationship'') rel_root) = Inr rel_map"
    and "read_xml z drawing_path = Inr drawing"
  shows "map_anchor_rows_to_images z drawing_path = anchors_loop rel_map Map.empty (children drawing)"
  using assms by (simp add: map_anchor_rows_to_images_def Let_def)

lemma ex_rels_path_drawing:
  "rels_path ''xl/drawings/drawing1.xml'' = ''xl/drawings/_rels/drawing1.xml.rels''"
  by code_simp

lemma ex_drawing_rel_map:
  "rel_dict (\<lambda>t. normpath (path_join (dirname ''xl/drawings/drawing1.xml'') t)) Map.empty
     (findall (qname ns_rel ''Relationship'') ex_drawing1_rels) =
   Inr [''rId1'' \<mapsto> ''xl/media/image1.png'', ''rId2'' \<mapsto> ''xl/media/image2.png'']"
proof -
  have "normpath (path_join (dirname ''xl/drawings/drawing1.xml'') ''../media/image1.png'') = ''xl/media/image1.png''"
    "normpath (path_join (dirname ''xl/drawings/drawing1.xml'') ''../media/image2.png'') = ''xl/media/image2.png''"
    by code_simp+
  then show ?thesis
    by (simp add: findall_def ex_drawing1_rels_def)
qed

lemma ex_anchor_entry:
  "anchor_entry [''rId1'' \<mapsto> ''xl/media/image1.png'', ''rId2'' \<mapsto> ''xl/media/image2.png'']
     (ex_anchor ''5'' ''rId1'') = Inr (Some (6, ''xl/media/image1.png''))"
  by code_simp

lemma dropWhile_all_Nil:
  assumes "\<forall>c\<in>set (dropWhile p s). p c"
  shows "dropWhile p s = []"
proof (rule ccontr)
  assume ne: "dropWhile p s \<noteq> []"
  then have "\<not> p (hd (dropWhile p s))"
    by (rule hd_dropWhile)
  moreover have "hd (dropWhile p s) \<in> set (dropWhile p s)"
    using ne by (rule hd_in_set)
  ultimately show False
    using assms by blast
qed

lemma strip_with_empty_iff: "strip_with p s = [] \<longleftrightarrow> (\<forall>c\<in>set s. p c)"
proof
  assume "strip_with p s = []"
  then have "\<forall>c\<in>set (dropWhile p s). p c"
    by (simp add: strip_with_def)
  then have "dropWhile p s = []"
    by (rule dropWhile_all_Nil)
  then show "\<forall>c\<in>set s. p c"
    by simp
next
  assume "\<forall>c\<in>set s. p c"
  then show "strip_with p s = []"
    by (auto simp: strip_with_def dest: set_dropWhileD)
qed

lemma strip_with_clean:
  assumes "s = [] \<or> (\<not> p (hd s) \<and> \<not> p (last s))"
  shows "strip_with p s = s"
proof -
  have 1: "dropWhile p s = s"
    unfolding dropWhile_eq_self_iff using assms by blast
  have "rev s = [] \<or> \<not> p (hd (rev s))"
    unfolding hd_rev using assms by auto
  then have "dropWhile p (rev s) = rev s"
    unfolding dropWhile_eq_self_iff .
  then show ?thesis using 1 by (simp add: strip_with_def)
qed

lemma replace_tab_blank:
  assumes "\<forall>c\<in>set s. isspace c"
  shows "\<forall>c\<in>set (replace_tab s). isspace c"
proof -
  have "isspace CHR '' ''" by (simp add: isspace_def)
  with assms show ?thesis by (auto simp: replace_tab_def)
qed

lemma replace_tab_id: "CHR 0x09 \<notin> set s \<Longrightarrow> replace_tab s = s"
  by (induction s) (auto simp: replace_tab_def)

lemma candidates_loop_result:
  assumes "candidates_loop z display_name row_image_map fs rows = Inr (cs, fs')"
  shows "list_all2
           (\<lambda>c row. name c = strip (or_empty (snd row ''A''))
                    \<and> statement c = strip (replace_tab (or_empty (snd row ''C'')))
                    \<and> (headshot c \<noteq> None) = truthy (row_image_map (fst row)))
           cs (filter (\<lambda>row. strip (or_empty (snd row ''A'')) \<noteq> []) rows)"
  using assms
proof (induction rows arbitrary: fs cs)
  case Nil
  then show ?case by simp
next
  case (Cons row rows)
  obtain row_idx cells where row: "row = (row_idx, cells)" by (cases row)
  show ?case
  proof (cases "strip (or_empty (cells ''A'')) = []")
    case True
    with Cons row show ?thesis by simp
  next
    case False
    show ?thesis
    proof (cases "truthy (row_image_map row_idx)")
      case True
      with Cons.prems row False obtain image_bytes cs0 p where
        rest: "candidates_loop z display_name row_image_map (fs(p \<mapsto> image_bytes)) rows = Inr (cs0, fs')"
        and cs: "cs = \<lparr>name = strip (or_empty (cells ''A'')),
                       statement = strip (replace_tab (or_empty (cells ''C''))),
                       headshot = Some p\<rparr> # cs0"
        by (auto simp: Let_def split: sum.splits if_splits)
      from Cons.IH [OF rest] cs row False True show ?thesis by simp
    next
      case nt: False
      with Cons.prems row False obtain cs0 where
        rest: "candidates_loop z display_name row_image_map fs rows = Inr (cs0, fs')"
        and cs: "cs = \<lparr>name = strip (or_empty (cells ''A'')),
                       statement = strip (replace_tab (or_empty (cells ''C''))),
                       headshot = None\<rparr> # cs0"
        by (auto simp: Let_def split: sum.splits)
      from Cons.IH [OF rest] cs row False nt show ?thesis by simp
    qed
  qed
qed

lemma list_all2_map_eq:
  assumes "list_all2 (\<lambda>x y. f x = g y) xs ys"
  shows "map f xs = map g ys"
  using assms by (induction rule: list_all2_induct) simp_all

lemma sum_isr_obtain:
  assumes "case x of Inl e \<Rightarrow> False | Inr y \<Rightarrow> True"
  obtains y where "x = Inr y"
  using assms by (cases x) auto

lemma cells_loop_step:
  "(\<exists>e. cells_loop ss acc (cell # rest) = Inl e)
   \<or> (\<exists>acc'. cells_loop ss acc (cell # rest) = cells_loop ss acc' rest)"
  by (auto simp: Let_def split: option.splits sum.splits)

lemma cells_loop_fails:
  assumes "cell \<in> set cells"
    and "attrib cell ''t'' = Some ''s''"
    and "find_child (qname ns_main ''v'') cell = Some v"
    and "filter isalpha (case attrib cell ''r'' of None \<Rightarrow> [] | Some c \<Rightarrow> c) \<noteq> []"
    and "\<forall>i. py_int (or_empty (elem_text v)) = Inr i \<longrightarrow>
             int (length ss) \<le> i \<or> i < - int (length ss)"
  shows "\<exists>e. cells_loop ss acc cells = Inl e"
  using assms(1)
proof (induction cells arbitrary: acc)
  case Nil
  then show ?case by simp
next
  case (Cons c cells)
  show ?case
  proof (cases "c = cell")
    case True
    show ?thesis
    proof (cases "py_int (or_empty (elem_text v))")
      case (Inl e)
      with True assms(2-4) show ?thesis by (simp add: Let_def)
    next
      case (Inr i)
      with assms(5) have "list_get ss i = Inl IndexError"
        by (auto simp: list_get_def)
      with True Inr assms(2-4) show ?thesis by (simp add: Let_def)
    qed
  next
    case False
    with Cons.prems have mem: "cell \<in> set cells" by simp
    from cells_loop_step [of ss acc c cells] show ?thesis
    proof
      assume "\<exists>e. cells_loop ss acc (c # cells) = Inl e"
      then show ?thesis .
    next
      assume "\<exists>acc'. cells_loop ss acc (c # cells) = cells_loop ss acc' cells"
      then obtain acc' where "cells_loop ss acc (c # cells) = cells_loop ss acc' cells" ..
      with Cons.IH [OF mem, of acc'] show ?thesis by simp
    qed
  qed
qed

lemma rows_loop_fails:
  assumes "row \<in> set rows"
    and "\<exists>e. cells_loop ss Map.empty (findall (qname ns_main ''c'') row) = Inl e"
  shows "\<exists>e. rows_loop ss rows = Inl e"
  using assms(1)
proof (induction rows)
  case Nil
  then show ?case by simp
next
  case (Cons r rows)
  show ?case
  proof (cases "r = row")
    case True
    with assms(2) show ?thesis by (auto split: sum.splits)
  next
    case False
    with Cons have "\<exists>e. rows_loop ss rows = Inl e" by simp
    then show ?thesis by (auto split: sum.splits)
  qed
qed

lemma sheet_position_result:
  assumes "sheet_position z ss fs target = Inr (p, fs')"
  shows "\<exists>rows. read_sheet_rows z (snd target) ss = Inr rows
           \<and> (case p of
                 None \<Rightarrow> rows = []
               | Some q \<Rightarrow>
                   rows \<noteq> [] \<and> sheet q = fst target
                 \<and> map (\<lambda>c. (name c, statement c)) (candidates q) =
                     map (\<lambda>row. (strip (or_empty (snd row ''A'')),
                                  strip (replace_tab (or_empty (snd row ''C'')))))
                         (filter (\<lambda>row. strip (or_empty (snd row ''A'')) \<noteq> []) (tl rows)))"
proof -
  from assms obtain dpo m rows where
    rows: "read_sheet_rows z (snd target) ss = Inr rows"
    and body: "(if rows = [] then Inr (None, fs)
                else case candidates_loop z (case POSITION_NAME_OVERRIDES (fst target) of
                                               None \<Rightarrow> fst target | Some d \<Rightarrow> d) m fs (tl rows) of
                       Inl e \<Rightarrow> Inl e
                     | Inr (cs, fs') \<Rightarrow>
                         Inr (Some \<lparr>title = (case POSITION_NAME_OVERRIDES (fst target) of
                                               None \<Rightarrow> fst target | Some d \<Rightarrow> d),
                                    slug = slugify (case POSITION_NAME_OVERRIDES (fst target) of
                                               None \<Rightarrow> fst target | Some d \<Rightarrow> d),
                                    sheet = fst target, candidates = cs\<rparr>, fs')) = Inr (p, fs')"
    by (auto simp: sheet_position_def Let_def split: sum.splits)
  show ?thesis
  proof (cases "rows = []")
    case True
    with body rows show ?thesis by auto
  next
    case False
    with body obtain cs where
      cands: "candidates_loop z (case POSITION_NAME_OVERRIDES (fst target) of
                                    None \<Rightarrow> fst target | Some d \<Rightarrow> d) m fs (tl rows) = Inr (cs, fs')"
      and p: "p = Some \<lparr>title = (case POSITION_NAME_OVERRIDES (fst target) of
                                               None \<Rightarrow> fst target | Some d \<Rightarrow> d),
                                    slug = slugify (case POSITION_NAME_OVERRIDES (fst target) of
                                               None \<Rightarrow> fst target | Some d \<Rightarrow> d),
                                    sheet = fst target, candidates = cs\<rparr>"
      by (auto split: sum.splits prod.splits)
    have "list_all2
          (\<lambda>c row. (name c, statement c) =
                     (strip (or_empty (snd row ''A'')), strip (replace_tab (or_empty (snd row ''C'')))))
          cs (filter (\<lambda>row. strip (or_empty (snd row ''A'')) \<noteq> []) (tl rows))"
      using candidates_loop_result [OF cands] by (rule list_all2_mono) simp
    then have "map (\<lambda>c. (name c, statement c)) cs =
           map (\<lambda>row. (strip (or_empty (snd row ''A'')),
                        strip (replace_tab (or_empty (snd row ''C'')))))
               (filter (\<lambda>row. strip (or_empty (snd row ''A'')) \<noteq> []) (tl rows))"
      by (rule list_all2_map_eq)
    with rows False p show ?thesis by simp
  qed
qed

lemma positions_loop_result:
  assumes "positions_loop z ss fs targets = Inr (ps, fs')"
  shows "list_all2
           (\<lambda>p t. sheet p = fst t
                \<and> (case read_sheet_rows z (snd t) ss of
                      Inl e \<Rightarrow> False
                    | Inr rows \<Rightarrow>
                        map (\<lambda>c. (name c, statement c)) (candidates p) =
                          map (\<lambda>row. (strip (or_empty (snd row ''A'')),
                                       strip (replace_tab (or_empty (snd row ''C'')))))
                              (filter (\<lambda>row. strip (or_empty (snd row ''A'')) \<noteq> []) (tl rows))))
           ps (filter (\<lambda>t. case read_sheet_rows z (snd t) ss of
                              Inl e \<Rightarrow> False | Inr rows \<Rightarrow> rows \<noteq> []) targets)"
  using assms
proof (induction targets arbitrary: fs ps)
  case Nil
  then show ?case by simp
next
  case (Cons t targets)
  from Cons.prems obtain p fs1 ps0 where
    sp: "sheet_position z ss fs t = Inr (p, fs1)"
    and rest: "positions_loop z ss fs1 targets = Inr (ps0, fs')"
    and ps: "ps = (case p of None \<Rightarrow> ps0 | Some q \<Rightarrow> q # ps0)"
    by (auto split: sum.splits prod.splits)
  from sheet_position_result [OF sp] obtain rows where
    rows: "read_sheet_rows z (snd t) ss = Inr rows"
    and emit: "case p of
                 None \<Rightarrow> rows = []
               | Some q \<Rightarrow>
                   rows \<noteq> [] \<and> sheet q = fst t
                 \<and> map (\<lambda>c. (name c, statement c)) (candidates q) =
                     map (\<lambda>row. (strip (or_empty (snd row ''A'')),
                                  strip (replace_tab (or_empty (snd row ''C'')))))
                         (filter (\<lambda>row. strip (or_empty (snd row ''A'')) \<noteq> []) (tl rows))"
    by blast
  from Cons.IH [OF rest] rows emit ps show ?case
    by (cases p) simp_all
qed

lemma py_int_zero: "py_int ''0'' = Inr 0"
  by code_simp

lemma rows_loop_index:
  assumes "rows_loop ss row_els = Inr rows"
  shows "list_all2 (\<lambda>row_el row. attrib row_el ''r'' = None \<longrightarrow> fst row = 0) row_els rows"
  using assms
proof (induction row_els arbitrary: rows)
  case Nil
  then show ?case by simp
next
  case (Cons row_el row_els)
  from Cons.prems obtain row_idx cells rows0 where
    idx: "py_int (case attrib row_el ''r'' of None \<Rightarrow> ''0'' | Some r \<Rightarrow> r) = Inr row_idx"
    and rest: "rows_loop ss row_els = Inr rows0"
    and rows: "rows = (row_idx, cells) # rows0"
    by (auto split: sum.splits)
  have "attrib row_el ''r'' = None \<longrightarrow> row_idx = 0"
    using idx py_int_zero by auto
  with Cons.IH [OF rest] rows show ?case by simp
qed

lemma anchor_entry_row:
  assumes "anchor_entry rel_map anchor = Inr (Some (k, p))"
  shows "\<exists>from_cell row_el txt i.
           find_child (qname ns_xdr ''from'') anchor = Some from_cell
         \<and> find_child (qname ns_xdr ''row'') from_cell = Some row_el
         \<and> elem_text row_el = Some txt \<and> py_int txt = Inr i \<and> k = i + 1"
  using assms
  by (auto simp: anchor_entry_def Let_def split: option.splits sum.splits if_splits)

lemma anchors_loop_keys:
  assumes "anchors_loop rel_map m0 anchors = Inr m" and "k \<in> dom m"
  shows "k \<in> dom m0 \<or> (\<exists>a\<in>set anchors. \<exists>p. anchor_entry rel_map a = Inr (Some (k, p)))"
  using assms
proof (induction anchors arbitrary: m0)
  case Nil
  then show ?case by simp
next
  case (Cons a anchors)
  show ?case
  proof (cases "anchor_entry rel_map a")
    case (Inl e)
    with Cons.prems show ?thesis by simp
  next
    case (Inr entry)
    show ?thesis
    proof (cases entry)
      case None
      with Inr Cons.prems have "anchors_loop rel_map m0 anchors = Inr m" by simp
      from Cons.IH [OF this Cons.prems(2)] show ?thesis by auto
    next
      case (Some kp)
      obtain k' p' where kp: "kp = (k', p')" by (cases kp)
      with Inr Some Cons.prems have "anchors_loop rel_map (m0(k' \<mapsto> p')) anchors = Inr m" by simp
      from Cons.IH [OF this Cons.prems(2)] Inr Some kp show ?thesis
        by (auto split: if_splits)
    qed
  qed
qed

lemma map_anchor_keys:
  assumes run: "map_anchor_rows_to_images z drawing_path = Inr m"
    and doc: "read_xml z drawing_path = Inr drawing"
    and nonneg: "\<forall>anchor\<in>set (children drawing). \<forall>from_cell row_el txt i.
        find_child (qname ns_xdr ''from'') anchor = Some from_cell \<longrightarrow>
        find_child (qname ns_xdr ''row'') from_cell = Some row_el \<longrightarrow>
        elem_text row_el = Some txt \<longrightarrow> py_int txt = Inr i \<longrightarrow> 0 \<le> i"
  shows "\<forall>k\<in>dom m. 1 \<le> k"
proof
  fix k assume k: "k \<in> dom m"
  from run doc obtain rel_map where loop: "anchors_loop rel_map Map.empty (children drawing) = Inr m"
    by (auto simp: map_anchor_rows_to_images_def Let_def split: sum.splits)
  from anchors_loop_keys [OF loop k] obtain a p where
    a: "a \<in> set (children drawing)" and e: "anchor_entry rel_map a = Inr (Some (k, p))"
    by auto
  from anchor_entry_row [OF e] obtain from_cell row_el rtext i where
    "find_child (qname ns_xdr ''from'') a = Some from_cell"
    "find_child (qname ns_xdr ''row'') from_cell = Some row_el"
    "elem_text row_el = Some rtext" "py_int rtext = Inr i" "k = i + 1"
    by blast
  with nonneg a have "0 \<le> i" by blast
  with \<open>k = i + 1\<close> show "1 \<le> k" by simp
qed

subsection \<open>The sheet target loader\<close>

text \<open>
  Claim C8. When the workbook and its relationship file are present and well formed, the
  workbook has a \<open>sheets\<close> element and every relationship carries an id and a target,
  \<open>load_sheet_targets\<close> returns, in the declared order, exactly the declared sheets whose
  relationship id the relationship map resolves (to a non-empty target), each with its name
  and the normalised path of its target below \<open>xl/\<close>. A sheet whose id does not resolve is
  left out and the function still returns.
\<close>

theorem load_sheet_targets_resolved:
  assumes wb: "read_xml z ''xl/workbook.xml'' = Inr workbook"
    and rr: "read_xml z ''xl/_rels/workbook.xml.rels'' = Inr rel_root"
    and wf: "\<forall>rel\<in>set (findall (qname ns_rel ''Relationship'') rel_root).
               attrib rel ''Id'' \<noteq> None \<and> attrib rel ''Target'' \<noteq> None"
    and sh: "find_child (qname ns_main ''sheets'') workbook = Some sheets"
    and rm: "rel_map = map_of (rev (map (\<lambda>rel. (the (attrib rel ''Id''), the (attrib rel ''Target'')))
                                      (findall (qname ns_rel ''Relationship'') rel_root)))"
  shows "load_sheet_targets z =
           Inr (map (\<lambda>sh. (case attrib sh ''name'' of
                              None \<Rightarrow> the (get_opt rel_map (attrib sh (qname ns_r ''id'')))
                            | Some n \<Rightarrow> n,
                            normpath (path_join ''xl'' (the (get_opt rel_map (attrib sh (qname ns_r ''id'')))))))
                    (filter (\<lambda>sh. truthy (get_opt rel_map (attrib sh (qname ns_r ''id''))))
                            (children sheets)))"
proof -
  have "rel_dict (\<lambda>t. t) Map.empty (findall (qname ns_rel ''Relationship'') rel_root) = Inr rel_map"
    using rel_dict_total [OF wf, of "\<lambda>t. t" Map.empty] rm by simp
  then show ?thesis
    using wb rr sh by (simp add: load_sheet_targets_def sheets_loop_filter)
qed

text \<open>In the example the sheet \<open>Ghost\<close> is left out and the order is kept.\<close>

theorem load_sheet_targets_resolved_witness:
  "load_sheet_targets ex_pkg =
     Inr [(''Pres'', ''xl/worksheets/sheet1.xml''), (''Treasurer'', ''xl/worksheets/sheet2.xml'')]"
proof -
  have wb: "read_xml ex_pkg ''xl/workbook.xml'' = Inr ex_workbook"
    by (simp add: read_xml_def ex_pkg_def)
  have rr: "read_xml ex_pkg ''xl/_rels/workbook.xml.rels'' = Inr ex_workbook_rels"
    by (simp add: read_xml_def ex_pkg_def)
  have wf: "\<forall>rel\<in>set (findall (qname ns_rel ''Relationship'') ex_workbook_rels).
               attrib rel ''Id'' \<noteq> None \<and> attrib rel ''Target'' \<noteq> None"
    by (simp add: findall_def ex_workbook_rels_def)
  have sh: "find_child (qname ns_main ''sheets'') ex_workbook = Some (hd (children ex_workbook))"
    by (simp add: find_child_def ex_workbook_def)
  show ?thesis
    using load_sheet_targets_resolved [OF wb rr wf sh refl]
    by (simp add: findall_def ex_workbook_rels_def ex_workbook_def get_opt_def truthy_def
          normpath_def path_join_def qname_def)
qed

subsection \<open>The drawing locator\<close>

text \<open>
  Claim C10. When the relationship file of a sheet declares a relationship whose type ends
  in \<open>/drawing\<close>, \<open>find_drawing_path\<close> returns the target of the first such relationship
  in document order, joined to the directory of the sheet and normalised, whatever
  relationships follow it.
\<close>

theorem find_drawing_path_first:
  assumes parsed: "read_xml z (rels_path sheet_path) = Inr rel_root"
    and rels: "findall (qname ns_rel ''Relationship'') rel_root = pre @ rel # post"
    and before: "\<forall>x\<in>set pre. \<not> endswith (case attrib x ''Type'' of None \<Rightarrow> [] | Some t \<Rightarrow> t) ''/drawing''"
    and first: "attrib rel ''Type'' = Some ty" "endswith ty ''/drawing''"
    and target: "attrib rel ''Target'' = Some target"
  shows "find_drawing_path z sheet_path =
           Inr (Some (normpath (path_join (dirname sheet_path) target)))"
proof -
  obtain m where "z (rels_path sheet_path) = Some m"
    using read_xml_member [OF parsed] by blast
  moreover have "drawing_loop sheet_path (pre @ rel # post) =
                   Inr (Some (normpath (path_join (dirname sheet_path) target)))"
    using drawing_loop_skip [OF before] first target by simp
  ultimately show ?thesis
    using parsed rels by (simp add: find_drawing_path_def Let_def)
qed

text \<open>The sheet \<open>Pres\<close> of the example declares two drawings; the first is returned.\<close>

theorem find_drawing_path_first_witness:
  "find_drawing_path ex_pkg ''xl/worksheets/sheet1.xml'' = Inr (Some ''xl/drawings/drawing1.xml'')"
proof -
  have "rels_path ''xl/worksheets/sheet1.xml'' = ''xl/worksheets/_rels/sheet1.xml.rels''"
    by code_simp
  then have p: "read_xml ex_pkg (rels_path ''xl/worksheets/sheet1.xml'') = Inr ex_sheet1_rels"
    by (simp add: read_xml_def ex_pkg_def)
  have r: "findall (qname ns_rel ''Relationship'') ex_sheet1_rels =
             [] @ hd (children ex_sheet1_rels) # tl (children ex_sheet1_rels)"
    by (simp add: findall_def ex_sheet1_rels_def)
  have t: "attrib (hd (children ex_sheet1_rels)) ''Type'' = Some ''http://example.org/rel/drawing''"
    by (simp add: ex_sheet1_rels_def)
  have e: "endswith ''http://example.org/rel/drawing'' ''/drawing''"
    by (simp add: endswith_def)
  have g: "attrib (hd (children ex_sheet1_rels)) ''Target'' = Some ''../drawings/drawing1.xml''"
    by (simp add: ex_sheet1_rels_def)
  have n: "normpath (path_join (dirname ''xl/worksheets/sheet1.xml'') ''../drawings/drawing1.xml'')
             = ''xl/drawings/drawing1.xml''"
    by code_simp
  show ?thesis
    using find_drawing_path_first [OF p r _ t e g] n by simp
qed

subsection \<open>The anchor mapper\<close>

text \<open>
  Claim C7. When several anchors of a drawing yield an entry for the same 1-based row, the
  anchor map holds the image of the last of them in document order: an anchor \<open>a\<close> that
  yields the entry \<open>(k, p)\<close> and is followed by no anchor yielding an entry for \<open>k\<close> decides
  the image stored under \<open>k\<close>, whatever anchors come before it.
\<close>

theorem map_anchor_last_wins:
  assumes run: "map_anchor_rows_to_images z drawing_path = Inr m"
    and rels: "read_xml z (rels_path drawing_path) = Inr rel_root"
    and dict: "rel_dict (\<lambda>t. normpath (path_join (dirname drawing_path) t)) Map.empty
                 (findall (qname ns_rel ''Relationship'') rel_root) = Inr rel_map"
    and doc: "read_xml z drawing_path = Inr drawing"
    and anchors: "children drawing = pre @ a # post"
    and entry: "anchor_entry rel_map a = Inr (Some (k, p))"
    and later: "\<forall>b\<in>set post. \<forall>q. anchor_entry rel_map b \<noteq> Inr (Some (k, q))"
  shows "m k = Some p"
proof -
  have "anchors_loop rel_map Map.empty (pre @ a # post) = Inr m"
    using map_anchor_unfold [OF rels dict doc] run anchors by simp
  from anchors_loop_last [OF this entry later] show ?thesis .
qed

text \<open>Of the two pictures anchored at zero-based row 5 the second one is kept.\<close>

theorem map_anchor_last_wins_witness:
  "map_sum id (\<lambda>m. m 6) (map_anchor_rows_to_images ex_pkg_dups ''xl/drawings/drawing1.xml'')
     = Inr (Some ''xl/media/image1.png'')"
proof -
  have rels: "read_xml ex_pkg_dups (rels_path ''xl/drawings/drawing1.xml'') = Inr ex_drawing1_rels"
    by (simp add: ex_rels_path_drawing read_xml_def ex_pkg_dups_def ex_pkg_def)
  have doc: "read_xml ex_pkg_dups ''xl/drawings/drawing1.xml'' = Inr ex_drawing_dups"
    by (simp add: read_xml_def ex_pkg_dups_def)
  have anchors: "children ex_drawing_dups =
      [ex_anchor ''5'' ''rId2''] @ ex_anchor ''5'' ''rId1'' #
        [ex_anchor ''2'' ''rId1'', ex_anchor ''7'' ''rId2'']"
    by (simp add: ex_drawing_dups_def)
  have "anchor_entry [''rId1'' \<mapsto> ''xl/media/image1.png'', ''rId2'' \<mapsto> ''xl/media/image2.png'']
          (ex_anchor ''2'' ''rId1'') = Inr (Some (3, ''xl/media/image1.png''))"
       "anchor_entry [''rId1'' \<mapsto> ''xl/media/image1.png'', ''rId2'' \<mapsto> ''xl/media/image2.png'']
          (ex_anchor ''7'' ''rId2'') = Inr (Some (8, ''xl/media/image2.png''))"
    by code_simp+
  then have later: "\<forall>b\<in>set [ex_anchor ''2'' ''rId1'', ex_anchor ''7'' ''rId2'']. \<forall>q.
      anchor_entry [''rId1'' \<mapsto> ''xl/media/image1.png'', ''rId2'' \<mapsto> ''xl/media/image2.png''] b
        \<noteq> Inr (Some (6, q))"
    by simp
  have "case map_anchor_rows_to_images ex_pkg_dups ''xl/drawings/drawing1.xml'' of
          Inl e \<Rightarrow> False | Inr m \<Rightarrow> True"
    by code_simp
  then obtain m where run: "map_anchor_rows_to_images ex_pkg_dups ''xl/drawings/drawing1.xml'' = Inr m"
    by (auto split: sum.splits)
  have "m 6 = Some ''xl/media/image1.png''"
    by (rule map_anchor_last_wins [OF run rels ex_drawing_rel_map doc anchors ex_anchor_entry later])
  then show ?thesis
    using run by simp
qed

text \<open>
  Claim C5, as stated, fails where a later anchor targets the same row: the first
  picture of the example drawing is anchored at zero-based row 2 and resolves to
  \<open>image1.png\<close>, yet the anchor map holds \<open>image2.png\<close> under row 3.
\<close>

theorem map_anchor_row_plus_one_counterexample:
  "anchor_entry [''rId1'' \<mapsto> ''xl/media/image1.png'', ''rId2'' \<mapsto> ''xl/media/image2.png'']
     (ex_anchor ''2'' ''rId1'') = Inr (Some (3, ''xl/media/image1.png'')) \<and>
   map_sum id (\<lambda>m. m 3) (map_anchor_rows_to_images ex_pkg ''xl/drawings/drawing1.xml'')
     = Inr (Some ''xl/media/image2.png'')"
  by code_simp

text \<open>
  Claim C5, amended. An anchor that declares a from-cell with zero-based row \<open>r\<close> and
  contains a picture whose embed reference resolves to a non-empty image path is recorded
  under \<open>r + 1\<close>, unless a later anchor of the drawing yields an entry for the same row; a
  data row with grid index \<open>r + 1\<close> and a non-blank name then gets a headshot, provided the
  image is in the archive.
\<close>

theorem map_anchor_row_plus_one:
  assumes run: "map_anchor_rows_to_images z drawing_path = Inr m"
    and rels: "read_xml z (rels_path drawing_path) = Inr rel_root"
    and dict: "rel_dict (\<lambda>t. normpath (path_join (dirname drawing_path) t)) Map.empty
                 (findall (qname ns_rel ''Relationship'') rel_root) = Inr rel_map"
    and doc: "read_xml z drawing_path = Inr drawing"
    and anchors: "children drawing = pre @ anchor # post"
    and from_cell: "find_child (qname ns_xdr ''from'') anchor = Some from_cell"
    and pic: "find_child (qname ns_xdr ''pic'') anchor = Some pic"
    and row_el: "find_child (qname ns_xdr ''row'') from_cell = Some row_el"
    and row_txt: "elem_text row_el = Some txt"
    and row_idx: "py_int txt = Inr r"
    and blip: "find_desc (qname ns_a ''blip'') pic = Some blip"
    and embed: "attrib blip (qname ns_r ''embed'') = Some e"
    and img: "rel_map e = Some img" "img \<noteq> []"
    and later: "\<forall>b\<in>set post. \<forall>q. anchor_entry rel_map b \<noteq> Inr (Some (r + 1, q))"
    and nm: "strip (or_empty (cells ''A'')) \<noteq> []"
    and bytes: "zip_read z (normpath img) = Inr image_bytes"
  shows "m (r + 1) = Some img \<and>
         map_sum id (\<lambda>(cs, fs'). map (\<lambda>c. headshot c \<noteq> None) cs)
           (candidates_loop z display_name m fs [(r + 1, cells)]) = Inr [True]"
proof -
  have entry: "anchor_entry rel_map anchor = Inr (Some (r + 1, img))"
    using from_cell pic row_el row_txt row_idx blip embed img
    by (simp add: anchor_entry_def get_opt_def truthy_def)
  have "anchors_loop rel_map Map.empty (pre @ anchor # post) = Inr m"
    using map_anchor_unfold [OF rels dict doc] run anchors by simp
  from anchors_loop_last [OF this entry later] have key: "m (r + 1) = Some img" .
  have "map_sum id (\<lambda>(cs, fs'). map (\<lambda>c. headshot c \<noteq> None) cs)
          (candidates_loop z display_name m fs [(r + 1, cells)]) = Inr [True]"
    using key img(2) nm bytes by (simp add: Let_def truthy_def)
  with key show ?thesis by simp
qed

theorem map_anchor_row_plus_one_witness:
  "map_sum id (\<lambda>m. m 3) (map_anchor_rows_to_images ex_pkg_dups ''xl/drawings/drawing1.xml'')
     = Inr (Some ''xl/media/image1.png'')"
proof -
  have rels: "read_xml ex_pkg_dups (rels_path ''xl/drawings/drawing1.xml'') = Inr ex_drawing1_rels"
    by (simp add: ex_rels_path_drawing read_xml_def ex_pkg_dups_def ex_pkg_def)
  have doc: "read_xml ex_pkg_dups ''xl/drawings/drawing1.xml'' = Inr ex_drawing_dups"
    by (simp add: read_xml_def ex_pkg_dups_def)
  have anchors: "children ex_drawing_dups =
      [ex_anchor ''5'' ''rId2'', ex_anchor ''5'' ''rId1''] @ ex_anchor ''2'' ''rId1'' #
        [ex_anchor ''7'' ''rId2'']"
    by (simp add: ex_drawing_dups_def)
  have "anchor_entry [''rId1'' \<mapsto> ''xl/media/image1.png'', ''rId2'' \<mapsto> ''xl/media/image2.png'']
          (ex_anchor ''7'' ''rId2'') = Inr (Some (8, ''xl/media/image2.png''))"
    by code_simp
  then have later: "\<forall>b\<in>set [ex_anchor ''7'' ''rId2'']. \<forall>q.
      anchor_entry [''rId1'' \<mapsto> ''xl/media/image1.png'', ''rId2'' \<mapsto> ''xl/media/image2.png''] b
        \<noteq> Inr (Some (2 + 1, q))"
    by simp
  have row_txt: "elem_text (Element (qname ns_xdr ''row'') Map.empty (Some ''2'') []) = Some ''2''"
    by simp
  have embed: "attrib (Element (qname ns_a ''blip'') [qname ns_r ''embed'' \<mapsto> ''rId1''] None [])
      (qname ns_r ''embed'') = Some ''rId1''"
    by simp
  have img: "[''rId1'' \<mapsto> ''xl/media/image1.png'', ''rId2'' \<mapsto> ''xl/media/image2.png''] ''rId1''
      = Some ''xl/media/image1.png''" "''xl/media/image1.png'' \<noteq> []"
    by simp_all
  have "case map_anchor_rows_to_images ex_pkg_dups ''xl/drawings/drawing1.xml'' of
          Inl e \<Rightarrow> False | Inr m \<Rightarrow> True"
    by code_simp
  then obtain m where run: "map_anchor_rows_to_images ex_pkg_dups ''xl/drawings/drawing1.xml'' = Inr m"
    by (auto split: sum.splits)
  have from_cell: "find_child (qname ns_xdr ''from'') (ex_anchor ''2'' ''rId1'') =
      Some (Element (qname ns_xdr ''from'') Map.empty None
          [Element (qname ns_xdr ''col'') Map.empty (Some ''1'') [],
           Element (qname ns_xdr ''row'') Map.empty (Some ''2'') []])"
    by (simp add: find_child_def ex_anchor_def)
  have pic: "find_child (qname ns_xdr ''pic'') (ex_anchor ''2'' ''rId1'') =
      Some (Element (qname ns_xdr ''pic'') Map.empty None
          [Element (qname ns_xdr ''blipFill'') Map.empty None
             [Element (qname ns_a ''blip'') [qname ns_r ''embed'' \<mapsto> ''rId1''] None []]])"
    by (simp add: find_child_def ex_anchor_def)
  have row_el: "find_child (qname ns_xdr ''row'') (Element (qname ns_xdr ''from'') Map.empty None
          [Element (qname ns_xdr ''col'') Map.empty (Some ''1'') [],
           Element (qname ns_xdr ''row'') Map.empty (Some ''2'') []]) =
      Some (Element (qname ns_xdr ''row'') Map.empty (Some ''2'') [])"
    by (simp add: find_child_def)
  have row_idx: "py_int ''2'' = Inr 2"
    by code_simp
  have blip: "find_desc (qname ns_a ''blip'') (Element (qname ns_xdr ''pic'') Map.empty None
          [Element (qname ns_xdr ''blipFill'') Map.empty None
             [Element (qname ns_a ''blip'') [qname ns_r ''embed'' \<mapsto> ''rId1''] None []]]) =
      Some (Element (qname ns_a ''blip'') [qname ns_r ''embed'' \<mapsto> ''rId1''] None [])"
    by (simp add: find_desc_def qname_def ns_xdr_def ns_a_def)
  have bytes: "zip_read ex_pkg_dups (normpath ''xl/media/image1.png'') = Inr ''PNG-1''"
    by code_simp
  have nm: "strip (or_empty ([''A'' \<mapsto> ''Alice''] ''A'')) \<noteq> []"
    by code_simp
  have "m (2 + 1) = Some ''xl/media/image1.png''"
    using map_anchor_row_plus_one
      [where rel_map = "[''rId1'' \<mapsto> ''xl/media/image1.png'', ''rId2'' \<mapsto> ''xl/media/image2.png'']"
         and e = "''rId1''" and cells = "[''A'' \<mapsto> ''Alice'']",
       OF run rels ex_drawing_rel_map doc anchors from_cell pic row_el
         row_txt row_idx blip embed img later nm bytes]
    by simp
  then show ?thesis
    using run by simp
qed

subsection \<open>Candidates\<close>

text \<open>
  Claim C3, as stated, fails: the name is stripped of surrounding whitespace, and the
  statement has its tabs replaced by spaces before it is stripped. The row with the name
  cell \<open>" Bob "\<close> and the statement cell \<open>"a<TAB>b"\<close> gives the candidate \<open>Bob\<close> with the
  statement \<open>"a b"\<close>.
\<close>

theorem candidates_loop_text_counterexample:
  "map (\<lambda>row. (or_empty (snd row ''A''), or_empty (snd row ''C''))) [hd ex_rows]
     = [('' Bob '', [CHR ''a'', CHR 0x09, CHR ''b''])] \<and>
   map_sum id (\<lambda>r. map (\<lambda>c. (name c, statement c)) (fst r))
     (candidates_loop ex_pkg ''Pres'' Map.empty Map.empty [hd ex_rows])
   = Inr [(''Bob'', ''a b'')]"
  by code_simp

text \<open>
  Claim C3, amended. The candidates of a sheet are, in row order, the data rows with a
  non-blank name; each carries the name cell stripped of surrounding whitespace, and the
  statement cell with every tab replaced by a space and then stripped. When no text has
  whitespace at either end and no statement has a tab, name and statement are the cell
  texts, character for character.
\<close>

theorem candidates_loop_text:
  assumes run: "candidates_loop z display_name row_image_map fs rows = Inr (cs, fs')"
  shows "map (\<lambda>c. (name c, statement c)) cs =
           map (\<lambda>row. (strip (or_empty (snd row ''A'')),
                        strip (replace_tab (or_empty (snd row ''C'')))))
               (filter (\<lambda>row. strip (or_empty (snd row ''A'')) \<noteq> []) rows)
         \<and> ((\<forall>row\<in>set rows.
                (or_empty (snd row ''A'') = []
                   \<or> (\<not> isspace (hd (or_empty (snd row ''A'')))
                        \<and> \<not> isspace (last (or_empty (snd row ''A'')))))
                \<and> (or_empty (snd row ''C'') = []
                   \<or> (\<not> isspace (hd (or_empty (snd row ''C'')))
                        \<and> \<not> isspace (last (or_empty (snd row ''C'')))))
                \<and> CHR 0x09 \<notin> set (or_empty (snd row ''C'')))
             \<longrightarrow> map (\<lambda>c. (name c, statement c)) cs =
                   map (\<lambda>row. (or_empty (snd row ''A''), or_empty (snd row ''C'')))
                       (filter (\<lambda>row. or_empty (snd row ''A'') \<noteq> []) rows))"
proof -
  have "list_all2
          (\<lambda>c row. (name c, statement c) =
                     (strip (or_empty (snd row ''A'')), strip (replace_tab (or_empty (snd row ''C'')))))
          cs (filter (\<lambda>row. strip (or_empty (snd row ''A'')) \<noteq> []) rows)"
    using candidates_loop_result [OF run] by (rule list_all2_mono) simp
  then have fields: "map (\<lambda>c. (name c, statement c)) cs =
           map (\<lambda>row. (strip (or_empty (snd row ''A'')),
                        strip (replace_tab (or_empty (snd row ''C'')))))
               (filter (\<lambda>row. strip (or_empty (snd row ''A'')) \<noteq> []) rows)"
    by (rule list_all2_map_eq)
  have "map (\<lambda>c. (name c, statement c)) cs =
          map (\<lambda>row. (or_empty (snd row ''A''), or_empty (snd row ''C'')))
              (filter (\<lambda>row. or_empty (snd row ''A'') \<noteq> []) rows)"
    if clean: "\<forall>row\<in>set rows.
                (or_empty (snd row ''A'') = []
                   \<or> (\<not> isspace (hd (or_empty (snd row ''A'')))
                        \<and> \<not> isspace (last (or_empty (snd row ''A'')))))
                \<and> (or_empty (snd row ''C'') = []
                   \<or> (\<not> isspace (hd (or_empty (snd row ''C'')))
                        \<and> \<not> isspace (last (or_empty (snd row ''C'')))))
                \<and> CHR 0x09 \<notin> set (or_empty (snd row ''C''))"
  proof -
    have a: "strip (or_empty (snd row ''A'')) = or_empty (snd row ''A'')" if "row \<in> set rows" for row
      using clean that by (simp add: strip_def strip_with_clean)
    have c: "strip (replace_tab (or_empty (snd row ''C''))) = or_empty (snd row ''C'')"
      if "row \<in> set rows" for row
      using clean that by (simp add: strip_def strip_with_clean replace_tab_id)
    have "filter (\<lambda>row. strip (or_empty (snd row ''A'')) \<noteq> []) rows =
            filter (\<lambda>row. or_empty (snd row ''A'') \<noteq> []) rows"
      using a by (intro filter_cong) auto
    moreover have "map (\<lambda>row. (strip (or_empty (snd row ''A'')),
                        strip (replace_tab (or_empty (snd row ''C'')))))
               (filter (\<lambda>row. or_empty (snd row ''A'') \<noteq> []) rows) =
          map (\<lambda>row. (or_empty (snd row ''A''), or_empty (snd row ''C'')))
              (filter (\<lambda>row. or_empty (snd row ''A'') \<noteq> []) rows)"
      using a c by (intro map_cong) auto
    ultimately show ?thesis using fields by simp
  qed
  with fields show ?thesis by blast
qed

theorem candidates_loop_text_witness:
  "map_sum id (\<lambda>r. map (\<lambda>c. (name c, statement c)) (fst r))
     (candidates_loop ex_pkg ''Pres'' Map.empty Map.empty ex_rows_clean)
   = Inr [(''Alice'', ''Vote for me'')]"
proof -
  have "case candidates_loop ex_pkg ''Pres'' Map.empty Map.empty ex_rows_clean of
          Inl e \<Rightarrow> False | Inr y \<Rightarrow> True"
    by code_simp
  then obtain y where "candidates_loop ex_pkg ''Pres'' Map.empty Map.empty ex_rows_clean = Inr y"
    by (rule sum_isr_obtain)
  then obtain cs fs' where
    run: "candidates_loop ex_pkg ''Pres'' Map.empty Map.empty ex_rows_clean = Inr (cs, fs')"
    by (cases y) simp
  have clean: "\<forall>row\<in>set ex_rows_clean.
                (or_empty (snd row ''A'') = []
                   \<or> (\<not> isspace (hd (or_empty (snd row ''A'')))
                        \<and> \<not> isspace (last (or_empty (snd row ''A'')))))
                \<and> (or_empty (snd row ''C'') = []
                   \<or> (\<not> isspace (hd (or_empty (snd row ''C'')))
                        \<and> \<not> isspace (last (or_empty (snd row ''C'')))))
                \<and> CHR 0x09 \<notin> set (or_empty (snd row ''C''))"
    by (simp add: ex_rows_clean_def or_empty_def isspace_def)
  have "map (\<lambda>c. (name c, statement c)) cs =
          map (\<lambda>row. (or_empty (snd row ''A''), or_empty (snd row ''C'')))
              (filter (\<lambda>row. or_empty (snd row ''A'') \<noteq> []) ex_rows_clean)"
    using candidates_loop_text [OF run] clean by blast
  also have "\<dots> = [(''Alice'', ''Vote for me'')]"
    by (simp add: ex_rows_clean_def or_empty_def)
  finally show ?thesis
    using run by simp
qed

text \<open>
  Claim C6. No candidate has an empty name: the candidates are, in row order, exactly
  the data rows whose name cell has a character that is not whitespace (a row whose name
  cell is absent, empty or whitespace only gives no candidate), and a candidate whose
  row has an absent, empty or whitespace-only statement cell has the empty statement.
\<close>

theorem candidates_loop_names:
  assumes run: "candidates_loop z display_name row_image_map fs rows = Inr (cs, fs')"
  shows "(\<forall>c\<in>set cs. name c \<noteq> [])
       \<and> map name cs =
           map (\<lambda>row. strip (or_empty (snd row ''A'')))
               (filter (\<lambda>row. \<exists>ch\<in>set (or_empty (snd row ''A'')). \<not> isspace ch) rows)
       \<and> list_all2
           (\<lambda>c row. (\<forall>ch\<in>set (or_empty (snd row ''C'')). isspace ch) \<longrightarrow> statement c = [])
           cs (filter (\<lambda>row. \<exists>ch\<in>set (or_empty (snd row ''A'')). \<not> isspace ch) rows)"
proof -
  have nb: "(\<lambda>row. strip (or_empty (snd row ''A'')) \<noteq> []) =
            (\<lambda>row :: int \<times> (string \<rightharpoonup> string). \<exists>ch\<in>set (or_empty (snd row ''A'')). \<not> isspace ch)"
    by (auto simp: strip_def strip_with_empty_iff)
  note res = candidates_loop_result [OF run, unfolded nb]
  have "list_all2 (\<lambda>c row. name c = strip (or_empty (snd row ''A''))) cs
          (filter (\<lambda>row. \<exists>ch\<in>set (or_empty (snd row ''A'')). \<not> isspace ch) rows)"
    using res by (rule list_all2_mono) simp
  then have names: "map name cs =
           map (\<lambda>row. strip (or_empty (snd row ''A'')))
               (filter (\<lambda>row. \<exists>ch\<in>set (or_empty (snd row ''A'')). \<not> isspace ch) rows)"
    by (rule list_all2_map_eq)
  have "\<forall>n\<in>set (map name cs). n \<noteq> []"
    unfolding names by (auto simp: strip_def strip_with_empty_iff)
  then have nonempty: "\<forall>c\<in>set cs. name c \<noteq> []"
    by simp
  have blank: "strip (replace_tab s) = []" if "\<forall>ch\<in>set s. isspace ch" for s
    using replace_tab_blank [OF that] by (simp add: strip_def strip_with_empty_iff)
  have "list_all2
           (\<lambda>c row. (\<forall>ch\<in>set (or_empty (snd row ''C'')). isspace ch) \<longrightarrow> statement c = [])
           cs (filter (\<lambda>row. \<exists>ch\<in>set (or_empty (snd row ''A'')). \<not> isspace ch) rows)"
    using res by (rule list_all2_mono) (simp add: blank)
  with nonempty names show ?thesis by blast
qed

text \<open>Of the three example rows the one with the blank name is dropped, and \<open>Eve\<close>,
  who has no statement cell, is kept.\<close>

theorem candidates_loop_names_witness:
  "map_sum id (\<lambda>r. map name (fst r))
     (candidates_loop ex_pkg ''Pres'' Map.empty Map.empty ex_rows)
   = Inr [''Bob'', ''Eve'']"
proof -
  have "case candidates_loop ex_pkg ''Pres'' Map.empty Map.empty ex_rows of
          Inl e \<Rightarrow> False | Inr y \<Rightarrow> True"
    by code_simp
  then obtain y where "candidates_loop ex_pkg ''Pres'' Map.empty Map.empty ex_rows = Inr y"
    by (rule sum_isr_obtain)
  then obtain cs fs' where
    run: "candidates_loop ex_pkg ''Pres'' Map.empty Map.empty ex_rows = Inr (cs, fs')"
    by (cases y) simp
  have "map name cs =
           map (\<lambda>row. strip (or_empty (snd row ''A'')))
               (filter (\<lambda>row. \<exists>ch\<in>set (or_empty (snd row ''A'')). \<not> isspace ch) ex_rows)"
    using candidates_loop_names [OF run] by blast
  also have "\<dots> = [''Bob'', ''Eve'']"
    by code_simp
  finally show ?thesis
    using run by simp
qed

subsection \<open>The row reader\<close>

text \<open>
  Claim C4, as stated, fails in two ways. \<open>shared_strings[int(raw_value)]\<close> is Python list
  indexing, which counts a negative index from the end: with a table of two strings, a
  shared-string cell holding \<open>-1\<close> silently gets the last string. And a cell whose
  coordinate has no letter is skipped before the lookup (\<open>col == ""\<close>): with the empty
  table, a shared-string cell without an \<open>r\<close> attribute is left out of the row and nothing
  fails.
\<close>

theorem read_sheet_rows_bad_index_counterexample:
  "map_sum id (map (\<lambda>row. (fst row, snd row ''A'')))
     (read_sheet_rows ex_pkg_negidx ''xl/worksheets/sheet1.xml'' [''Alice'', ''Vote for me''])
   = Inr [(1, Some ''Vote for me'')] \<and>
   map_sum id (map (\<lambda>row. (fst row, snd row ''A'', snd row [])))
     (read_sheet_rows ex_pkg_nocoord ''xl/worksheets/sheet1.xml'' [])
   = Inr [(1, None, None)]"
  by code_simp

text \<open>
  Claim C4, amended. For a cell of the shared-string type whose coordinate has a column
  letter, the stored index is the text of its value element; \<open>read_sheet_rows\<close> fails
  whenever that text is not an integer literal or denotes an index \<open>i\<close> with \<open>i \<ge> n\<close> or
  \<open>i < -n\<close>, for a table of \<open>n\<close> strings. With the empty table this is every such cell:
  none yields an empty or substituted string.
\<close>

theorem read_sheet_rows_bad_index:
  assumes doc: "read_xml z sheet_path = Inr root"
    and row: "row \<in> set (findall_desc (qname ns_main ''row'') root)"
    and cell: "cell \<in> set (findall (qname ns_main ''c'') row)"
    and shared: "attrib cell ''t'' = Some ''s''"
    and velem: "find_child (qname ns_main ''v'') cell = Some v"
    and col: "filter isalpha (case attrib cell ''r'' of None \<Rightarrow> [] | Some c \<Rightarrow> c) \<noteq> []"
    and idx: "\<forall>i. py_int (or_empty (elem_text v)) = Inr i \<longrightarrow>
                int (length shared_strings) \<le> i \<or> i < - int (length shared_strings)"
  shows "\<exists>e. read_sheet_rows z sheet_path shared_strings = Inl e"
proof -
  have "\<exists>e. cells_loop shared_strings Map.empty (findall (qname ns_main ''c'') row) = Inl e"
    by (rule cells_loop_fails [OF cell shared velem col idx])
  with row have "\<exists>e. rows_loop shared_strings (findall_desc (qname ns_main ''row'') root) = Inl e"
    by (rule rows_loop_fails)
  then show ?thesis
    using doc by (simp add: read_sheet_rows_def)
qed

text \<open>With the empty table, the first shared-string cell of the example sheet is fatal.\<close>

theorem read_sheet_rows_bad_index_witness:
  "map_sum id (map fst) (read_sheet_rows ex_pkg ''xl/worksheets/sheet1.xml'' []) = Inl IndexError"
proof -
  have doc: "read_xml ex_pkg ''xl/worksheets/sheet1.xml'' = Inr ex_sheet1"
    by (simp add: read_xml_def ex_pkg_def)
  have row: "Element (qname ns_main ''row'') [''r'' \<mapsto> ''3''] None
             [ex_cell [''r'' \<mapsto> ''A3'', ''t'' \<mapsto> ''s''] ''0'',
              ex_cell [''r'' \<mapsto> ''C3'', ''t'' \<mapsto> ''s''] ''1'']
          \<in> set (findall_desc (qname ns_main ''row'') ex_sheet1)"
    by (simp add: findall_desc_def ex_sheet1_def)
  have cell: "ex_cell [''r'' \<mapsto> ''A3'', ''t'' \<mapsto> ''s''] ''0''
          \<in> set (findall (qname ns_main ''c'') (Element (qname ns_main ''row'') [''r'' \<mapsto> ''3''] None
             [ex_cell [''r'' \<mapsto> ''A3'', ''t'' \<mapsto> ''s''] ''0'',
              ex_cell [''r'' \<mapsto> ''C3'', ''t'' \<mapsto> ''s''] ''1'']))"
    by (simp add: findall_def ex_cell_def)
  have shared: "attrib (ex_cell [''r'' \<mapsto> ''A3'', ''t'' \<mapsto> ''s''] ''0'') ''t'' = Some ''s''"
    by (simp add: ex_cell_def)
  have velem: "find_child (qname ns_main ''v'') (ex_cell [''r'' \<mapsto> ''A3'', ''t'' \<mapsto> ''s''] ''0'')
               = Some (Element (qname ns_main ''v'') Map.empty (Some ''0'') [])"
    by (simp add: ex_cell_def find_child_def)
  have col: "filter isalpha (case attrib (ex_cell [''r'' \<mapsto> ''A3'', ''t'' \<mapsto> ''s''] ''0'') ''r'' of
                None \<Rightarrow> [] | Some c \<Rightarrow> c) \<noteq> []"
    by (simp add: ex_cell_def isalpha_def)
  have idx: "\<forall>i. py_int (or_empty (elem_text (Element (qname ns_main ''v'') Map.empty (Some ''0'') [])))
                = Inr i \<longrightarrow> int (length ([] :: string list)) \<le> i \<or> i < - int (length ([] :: string list))"
    by auto
  obtain e where e: "read_sheet_rows ex_pkg ''xl/worksheets/sheet1.xml'' [] = Inl e"
    using read_sheet_rows_bad_index [OF doc row cell shared velem col idx] by blast
  moreover have "map_sum id (map fst) (read_sheet_rows ex_pkg ''xl/worksheets/sheet1.xml'' [])
                   = Inl IndexError"
    by code_simp
  ultimately show ?thesis by simp
qed

subsection \<open>The orchestrator\<close>

text \<open>
  Claim C1, as stated, fails for a sheet that has a header row and nothing else: the
  script skips a sheet only when its row list is empty. The sheet \<open>Treasurer\<close> of the
  example has one row, the header, and its position is written with no candidates.
\<close>

theorem main_positions_counterexample:
  "map_sum id (map fst)
     (read_sheet_rows ex_pkg ''xl/worksheets/sheet2.xml'' [''Alice'', ''Vote for me'']) = Inr [1] \<and>
   map_sum id written (main (Some ex_pkg) Map.empty) =
     Inr (Some [\<lparr>title = ''Pres'', slug = ''pres'', sheet = ''Pres'',
                  candidates = [\<lparr>name = ''Alice'', statement = ''Vote for me'',
                                 headshot = Some ''assets/headshots/pres-alice.png''\<rparr>]\<rparr>,
                \<lparr>title = ''Treasurer'', slug = ''treasurer'', sheet = ''Treasurer'',
                  candidates = []\<rparr>])"
  by code_simp

text \<open>
  Claim C1, amended. In a run that returns, the positions written are, in order, those of
  the sheet targets whose row list is not empty, the header row included: a sheet with no
  row yields no position. The candidates of a position are built from the rows after the
  first that have a non-blank name, so a sheet with a header row only, or whose data rows
  all have blank names, yields a position with an empty list of candidates.
\<close>

theorem main_positions:
  assumes "main (Some z) fs = Inr r"
  shows "\<exists>shared_strings sheet_targets positions.
           load_shared_strings z = Inr shared_strings
         \<and> load_sheet_targets z = Inr sheet_targets
         \<and> written r = Some positions
         \<and> list_all2
             (\<lambda>p t. sheet p = fst t
                  \<and> (case read_sheet_rows z (snd t) shared_strings of
                        Inl e \<Rightarrow> False
                      | Inr rows \<Rightarrow>
                          map (\<lambda>c. (name c, statement c)) (candidates p) =
                            map (\<lambda>row. (strip (or_empty (snd row ''A'')),
                                         strip (replace_tab (or_empty (snd row ''C'')))))
                                (filter (\<lambda>row. strip (or_empty (snd row ''A'')) \<noteq> []) (tl rows))
                        \<and> (filter (\<lambda>row. strip (or_empty (snd row ''A'')) \<noteq> []) (tl rows) = []
                             \<longrightarrow> candidates p = [])))
             positions
             (filter (\<lambda>t. case read_sheet_rows z (snd t) shared_strings of
                             Inl e \<Rightarrow> False | Inr rows \<Rightarrow> rows \<noteq> []) sheet_targets)"
proof -
  from assms obtain ss ts ps fs' where
    ss: "load_shared_strings z = Inr ss"
    and ts: "load_sheet_targets z = Inr ts"
    and loop: "positions_loop z ss fs ts = Inr (ps, fs')"
    and r: "r = \<lparr>status = 0, written = Some ps, headshots = fs'\<rparr>"
    by (auto simp: main_def split: sum.splits prod.splits)
  have "list_all2
             (\<lambda>p t. sheet p = fst t
                  \<and> (case read_sheet_rows z (snd t) ss of
                        Inl e \<Rightarrow> False
                      | Inr rows \<Rightarrow>
                          map (\<lambda>c. (name c, statement c)) (candidates p) =
                            map (\<lambda>row. (strip (or_empty (snd row ''A'')),
                                         strip (replace_tab (or_empty (snd row ''C'')))))
                                (filter (\<lambda>row. strip (or_empty (snd row ''A'')) \<noteq> []) (tl rows))
                        \<and> (filter (\<lambda>row. strip (or_empty (snd row ''A'')) \<noteq> []) (tl rows) = []
                             \<longrightarrow> candidates p = [])))
             ps
             (filter (\<lambda>t. case read_sheet_rows z (snd t) ss of
                             Inl e \<Rightarrow> False | Inr rows \<Rightarrow> rows \<noteq> []) ts)"
    using positions_loop_result [OF loop]
    by (rule list_all2_mono) (auto split: sum.splits)
  with ss ts r show ?thesis by simp
qed

text \<open>
  In the three-sheet example \<open>Secretary\<close>, which has no row, is left out; \<open>Treasurer\<close>, which
  has a header row only, is written with no candidates.
\<close>

theorem main_positions_witness:
  "map_sum id (\<lambda>r. map_option (map (\<lambda>p. (sheet p, map name (candidates p)))) (written r))
     (main (Some ex_pkg3) Map.empty)
   = Inr (Some [(''Pres'', [''Alice'']), (''Treasurer'', [])])"
proof -
  have "case main (Some ex_pkg3) Map.empty of Inl e \<Rightarrow> False | Inr y \<Rightarrow> True"
    by code_simp
  then obtain r where run: "main (Some ex_pkg3) Map.empty = Inr r"
    by (rule sum_isr_obtain)
  have shared: "load_shared_strings ex_pkg3 = Inr [''Alice'', ''Vote for me'']"
    by code_simp
  have targets: "load_sheet_targets ex_pkg3 =
      Inr [(''Pres'', ''xl/worksheets/sheet1.xml''), (''Secretary'', ''xl/worksheets/sheet3.xml''),
           (''Treasurer'', ''xl/worksheets/sheet2.xml'')]"
    by code_simp
  have nonempty: "map (\<lambda>t. case read_sheet_rows ex_pkg3 (snd t) [''Alice'', ''Vote for me''] of
                          Inl e \<Rightarrow> False | Inr rows \<Rightarrow> rows \<noteq> [])
      [(''Pres'', ''xl/worksheets/sheet1.xml''), (''Secretary'', ''xl/worksheets/sheet3.xml''),
       (''Treasurer'', ''xl/worksheets/sheet2.xml'')] = [True, False, True]"
    by code_simp
  have pres: "map_sum id
      (\<lambda>rows. map (\<lambda>row. (strip (or_empty (snd row ''A'')),
                            strip (replace_tab (or_empty (snd row ''C'')))))
                   (filter (\<lambda>row. strip (or_empty (snd row ''A'')) \<noteq> []) (tl rows)))
      (read_sheet_rows ex_pkg3 ''xl/worksheets/sheet1.xml'' [''Alice'', ''Vote for me''])
      = Inr [(''Alice'', ''Vote for me'')]"
    by code_simp
  have treasurer: "map_sum id
      (\<lambda>rows. map (\<lambda>row. (strip (or_empty (snd row ''A'')),
                            strip (replace_tab (or_empty (snd row ''C'')))))
                   (filter (\<lambda>row. strip (or_empty (snd row ''A'')) \<noteq> []) (tl rows)))
      (read_sheet_rows ex_pkg3 ''xl/worksheets/sheet2.xml'' [''Alice'', ''Vote for me''])
      = Inr []"
    by code_simp
  from main_positions [OF run] shared targets nonempty obtain p1 p2 where
    ps: "written r = Some [p1, p2]"
    and p1: "sheet p1 = ''Pres''"
      "case read_sheet_rows ex_pkg3 ''xl/worksheets/sheet1.xml'' [''Alice'', ''Vote for me''] of
         Inl e \<Rightarrow> False
       | Inr rows \<Rightarrow>
           map (\<lambda>c. (name c, statement c)) (candidates p1) =
             map (\<lambda>row. (strip (or_empty (snd row ''A'')),
                          strip (replace_tab (or_empty (snd row ''C'')))))
                 (filter (\<lambda>row. strip (or_empty (snd row ''A'')) \<noteq> []) (tl rows))
         \<and> (filter (\<lambda>row. strip (or_empty (snd row ''A'')) \<noteq> []) (tl rows) = []
              \<longrightarrow> candidates p1 = [])"
    and p2: "sheet p2 = ''Treasurer''"
      "case read_sheet_rows ex_pkg3 ''xl/worksheets/sheet2.xml'' [''Alice'', ''Vote for me''] of
         Inl e \<Rightarrow> False
       | Inr rows \<Rightarrow>
           map (\<lambda>c. (name c, statement c)) (candidates p2) =
             map (\<lambda>row. (strip (or_empty (snd row ''A'')),
                          strip (replace_tab (or_empty (snd row ''C'')))))
                 (filter (\<lambda>row. strip (or_empty (snd row ''A'')) \<noteq> []) (tl rows))
         \<and> (filter (\<lambda>row. strip (or_empty (snd row ''A'')) \<noteq> []) (tl rows) = []
              \<longrightarrow> candidates p2 = [])"
    by (auto simp: list_all2_Cons2)
  have "map (\<lambda>c. (name c, statement c)) (candidates p1) = [(''Alice'', ''Vote for me'')]"
    using p1(2) pres by (auto split: sum.splits)
  then have "map fst (map (\<lambda>c. (name c, statement c)) (candidates p1)) = [''Alice'']"
    by simp
  then have c1: "map name (candidates p1) = [''Alice'']"
    by (simp add: comp_def)
  have c2: "candidates p2 = []"
    using p2(2) treasurer by (auto split: sum.splits)
  show ?thesis
    using run ps p1(1) p2(1) c1 c2 by simp
qed

text \<open>
  Claim C2. \<open>find_drawing_path\<close> tests for the relationship file of the sheet before it
  reads it, and returns \<open>None\<close> when it is absent. \<open>map_anchor_rows_to_images\<close> has no such
  test: in the example package without the relationship file of the drawing, the drawing
  is found, the file is absent, and reading it raises \<open>KeyError\<close>, which ends the run.
\<close>

theorem missing_drawing_rels_raises:
  "find_drawing_path ex_pkg_no_drawing_rels ''xl/worksheets/sheet1.xml''
     = Inr (Some ''xl/drawings/drawing1.xml'') \<and>
   map_option data (ex_pkg_no_drawing_rels (rels_path ''xl/drawings/drawing1.xml'')) = None \<and>
   map_sum id (\<lambda>m. m 3)
     (map_anchor_rows_to_images ex_pkg_no_drawing_rels ''xl/drawings/drawing1.xml'') = Inl KeyError \<and>
   map_sum id status (main (Some ex_pkg_no_drawing_rels) Map.empty) = Inl KeyError"
  by code_simp

text \<open>
  Claim C9, as stated, fails where an anchor declares row \<open>-1\<close>: \<open>int("-1") + 1\<close> is the key
  0, the index given to a row without an \<open>r\<close> attribute, and the candidate of that row gets
  the headshot.
\<close>

theorem rowless_candidate_no_headshot_counterexample:
  "map_sum id (map fst)
     (read_sheet_rows ex_pkg_rowless ''xl/worksheets/sheet1.xml'' [''Alice'', ''Vote for me''])
     = Inr [1, 0] \<and>
   map_sum id (\<lambda>m. m 0) (map_anchor_rows_to_images ex_pkg_rowless ''xl/drawings/drawing1.xml'')
     = Inr (Some ''xl/media/image1.png'') \<and>
   map_sum id (\<lambda>r. map_option (\<lambda>q. map (\<lambda>c. (name c, headshot c)) (candidates q)) (fst r))
     (sheet_position ex_pkg_rowless [''Alice'', ''Vote for me''] Map.empty
        (''Pres'', ''xl/worksheets/sheet1.xml''))
     = Inr (Some [(''Bob'', Some ''assets/headshots/pres-bob.png'')])"
  by code_simp

text \<open>
  Claim C9, amended. A row element without an \<open>r\<close> attribute gets the row index 0. When
  no anchor of the sheet's drawing declares a negative row, every key of the anchor map is
  at least 1, and a candidate built from a row with index 0 has no headshot.
\<close>

theorem rowless_candidate_no_headshot:
  assumes run: "sheet_position z shared_strings fs (sheet_name, sheet_path) = Inr (Some p, fs')"
    and root: "read_xml z sheet_path = Inr root"
    and nonneg: "\<forall>drawing_path drawing.
        find_drawing_path z sheet_path = Inr (Some drawing_path) \<longrightarrow>
        read_xml z drawing_path = Inr drawing \<longrightarrow>
        (\<forall>anchor\<in>set (children drawing). \<forall>from_cell row_el txt i.
           find_child (qname ns_xdr ''from'') anchor = Some from_cell \<longrightarrow>
           find_child (qname ns_xdr ''row'') from_cell = Some row_el \<longrightarrow>
           elem_text row_el = Some txt \<longrightarrow> py_int txt = Inr i \<longrightarrow> 0 \<le> i)"
  shows "\<exists>rows.
           read_sheet_rows z sheet_path shared_strings = Inr rows
         \<and> list_all2 (\<lambda>row_el row. attrib row_el ''r'' = None \<longrightarrow> fst row = 0)
              (findall_desc (qname ns_main ''row'') root) rows
         \<and> (\<forall>drawing_path m.
               find_drawing_path z sheet_path = Inr (Some drawing_path) \<longrightarrow>
               map_anchor_rows_to_images z drawing_path = Inr m \<longrightarrow> (\<forall>k\<in>dom m. 1 \<le> k))
         \<and> list_all2 (\<lambda>c row. fst row = 0 \<longrightarrow> headshot c = None) (candidates p)
              (filter (\<lambda>row. strip (or_empty (snd row ''A'')) \<noteq> []) (tl rows))"
proof -
  have keys: "\<forall>k\<in>dom m. 1 \<le> k"
    if dp: "find_drawing_path z sheet_path = Inr (Some drawing_path)"
      and m: "map_anchor_rows_to_images z drawing_path = Inr m" for drawing_path m
  proof -
    from m obtain drawing where doc: "read_xml z drawing_path = Inr drawing"
      by (auto simp: map_anchor_rows_to_images_def Let_def split: sum.splits)
    from nonneg dp doc have "\<forall>anchor\<in>set (children drawing). \<forall>from_cell row_el txt i.
           find_child (qname ns_xdr ''from'') anchor = Some from_cell \<longrightarrow>
           find_child (qname ns_xdr ''row'') from_cell = Some row_el \<longrightarrow>
           elem_text row_el = Some txt \<longrightarrow> py_int txt = Inr i \<longrightarrow> 0 \<le> i"
      by blast
    with m doc show ?thesis by (rule map_anchor_keys)
  qed
  from run obtain dpo m rows cs where
    dpo: "find_drawing_path z sheet_path = Inr dpo"
    and m: "(if truthy dpo then map_anchor_rows_to_images z (the dpo) else Inr Map.empty) = Inr m"
    and rows: "read_sheet_rows z sheet_path shared_strings = Inr rows"
    and cands: "candidates_loop z (case POSITION_NAME_OVERRIDES sheet_name of
                                     None \<Rightarrow> sheet_name | Some d \<Rightarrow> d) m fs (tl rows) = Inr (cs, fs')"
    and p: "candidates p = cs"
    by (auto simp: sheet_position_def Let_def split: sum.splits if_splits prod.splits)
  have "m 0 = None"
  proof (cases "truthy dpo")
    case True
    then obtain dp where "dpo = Some dp" by (auto simp: truthy_def split: option.splits)
    with True m dpo keys [of dp m] have "\<forall>k\<in>dom m. 1 \<le> k" by simp
    then show ?thesis by force
  next
    case False
    with m show ?thesis by auto
  qed
  then have "list_all2 (\<lambda>c row. fst row = 0 \<longrightarrow> headshot c = None) cs
               (filter (\<lambda>row. strip (or_empty (snd row ''A'')) \<noteq> []) (tl rows))"
    using candidates_loop_result [OF cands]
    by (auto elim!: list_all2_mono simp: truthy_def)
  moreover have "list_all2 (\<lambda>row_el row. attrib row_el ''r'' = None \<longrightarrow> fst row = 0)
              (findall_desc (qname ns_main ''row'') root) rows"
    using rows root by (simp add: read_sheet_rows_def rows_loop_index)
  ultimately show ?thesis
    using rows p keys by blast
qed

theorem rowless_candidate_no_headshot_witness:
  "map_sum id (\<lambda>r. map_option (\<lambda>q. map (\<lambda>c. (name c, headshot c)) (candidates q)) (fst r))
     (sheet_position ex_pkg_rowless_ok [''Alice'', ''Vote for me''] Map.empty
        (''Pres'', ''xl/worksheets/sheet1.xml''))
   = Inr (Some [(''Bob'', None)])"
proof -
  have "case sheet_position ex_pkg_rowless_ok [''Alice'', ''Vote for me''] Map.empty
               (''Pres'', ''xl/worksheets/sheet1.xml'') of
          Inl e \<Rightarrow> False | Inr y \<Rightarrow> (case fst y of None \<Rightarrow> False | Some q \<Rightarrow> True)"
    by code_simp
  then obtain p fs' where
    run: "sheet_position ex_pkg_rowless_ok [''Alice'', ''Vote for me''] Map.empty
            (''Pres'', ''xl/worksheets/sheet1.xml'') = Inr (Some p, fs')"
    by (auto split: sum.splits option.splits)
  have root: "read_xml ex_pkg_rowless_ok ''xl/worksheets/sheet1.xml'' = Inr ex_sheet_rowless"
    by (simp add: read_xml_def ex_pkg_rowless_ok_def)
  have dp: "find_drawing_path ex_pkg_rowless_ok ''xl/worksheets/sheet1.xml''
              = Inr (Some ''xl/drawings/drawing1.xml'')"
    by code_simp
  have doc: "read_xml ex_pkg_rowless_ok ''xl/drawings/drawing1.xml'' = Inr ex_drawing1"
    by (simp add: read_xml_def ex_pkg_rowless_ok_def ex_pkg_def)
  have row_text: "t = r"
    if "find_child (qname ns_xdr ''from'') (ex_anchor r e) = Some from_cell"
      and "find_child (qname ns_xdr ''row'') from_cell = Some row_el"
      and "elem_text row_el = Some t" for r e from_cell row_el t
    using that by (auto simp: ex_anchor_def find_child_def)
  have two: "py_int ''2'' = Inr 2"
    by code_simp
  have nonneg: "\<forall>drawing_path drawing.
        find_drawing_path ex_pkg_rowless_ok ''xl/worksheets/sheet1.xml'' = Inr (Some drawing_path) \<longrightarrow>
        read_xml ex_pkg_rowless_ok drawing_path = Inr drawing \<longrightarrow>
        (\<forall>anchor\<in>set (children drawing). \<forall>from_cell row_el txt i.
           find_child (qname ns_xdr ''from'') anchor = Some from_cell \<longrightarrow>
           find_child (qname ns_xdr ''row'') from_cell = Some row_el \<longrightarrow>
           elem_text row_el = Some txt \<longrightarrow> py_int txt = Inr i \<longrightarrow> 0 \<le> i)"
  proof (intro allI impI ballI)
    fix drawing_path drawing anchor from_cell row_el t i
    assume "find_drawing_path ex_pkg_rowless_ok ''xl/worksheets/sheet1.xml'' = Inr (Some drawing_path)"
      and "read_xml ex_pkg_rowless_ok drawing_path = Inr drawing"
      and a: "anchor \<in> set (children drawing)"
      and f: "find_child (qname ns_xdr ''from'') anchor = Some from_cell"
      and r: "find_child (qname ns_xdr ''row'') from_cell = Some row_el"
      and t: "elem_text row_el = Some t" and i: "py_int t = Inr i"
    then have "drawing = ex_drawing1"
      using dp doc by simp
    with a have "anchor = ex_anchor ''2'' ''rId1'' \<or> anchor = ex_anchor ''2'' ''rId2''"
      by (simp add: ex_drawing1_def)
    then have "t = ''2''"
      using row_text f r t by blast
    with i two show "0 \<le> i" by simp
  qed
  from rowless_candidate_no_headshot [OF run root nonneg] obtain rows where
    "read_sheet_rows ex_pkg_rowless_ok ''xl/worksheets/sheet1.xml'' [''Alice'', ''Vote for me'']
       = Inr rows"
    by blast
  moreover have
    "map_sum id (\<lambda>r. map_option (\<lambda>q. map (\<lambda>c. (name c, headshot c)) (candidates q)) (fst r))
       (sheet_position ex_pkg_rowless_ok [''Alice'', ''Vote for me''] Map.empty
          (''Pres'', ''xl/worksheets/sheet1.xml''))
     = Inr (Some [(''Bob'', None)])"
    by code_simp
  ultimately show ?thesis by simp
qed

end
